theory Spec2Isabelle
  imports Complex_Main "HOL-Library.Code_Target_Nat"
begin

section \<open>Gauss-Newton refinement of an SE(3) pose: \<open>optimal_tf_gauss_newton\<close>\<close>

text \<open>
  A shallow embedding of \<open>mp2p_icp::optimal_tf_gauss_newton\<close>
  (file \<open>mp2p_icp/src/optimal_tf_gauss_newton.cpp\<close>).

  Scalars of type \<open>double\<close> are idealised as \<^typ>\<open>real\<close>; no statement below depends
  on rounding.  Values of type \<open>size_t\<close> are \<^typ>\<open>nat\<close>, taken to have 64 bits: the
  loop indices are bounded by the sizes of the vectors they run over, and the one sum
  of two \<open>size_t\<close> values (line 78) is reduced modulo \<open>2 ^ 64\<close>.  Fixed-size Eigen vectors
  and matrices are lists and lists of rows.  The log line printed under \<open>verbose\<close>
  (lines 214 to 218) changes no variable and is left out.
\<close>

subsection \<open>Dense linear algebra on lists\<close>

type_synonym vec = "real list"
type_synonym mat = "real list list"

definition zero_vec :: "nat \<Rightarrow> vec" where
  "zero_vec n = replicate n 0"

definition zero_mat :: "nat \<Rightarrow> nat \<Rightarrow> mat" where
  "zero_mat r c = replicate r (replicate c 0)"

definition vec_add :: "vec \<Rightarrow> vec \<Rightarrow> vec" where
  "vec_add a b = map2 (+) a b"

definition mat_add :: "mat \<Rightarrow> mat \<Rightarrow> mat" where
  "mat_add A B = map2 vec_add A B"

definition smult_vec :: "real \<Rightarrow> vec \<Rightarrow> vec" where
  "smult_vec k v = map ((*) k) v"

definition smult_mat :: "real \<Rightarrow> mat \<Rightarrow> mat" where
  "smult_mat k A = map (smult_vec k) A"

definition vec_neg :: "vec \<Rightarrow> vec" where
  "vec_neg v = map uminus v"

definition dot :: "vec \<Rightarrow> vec \<Rightarrow> real" where
  "dot a b = sum_list (map2 (*) a b)"

definition squaredNorm :: "vec \<Rightarrow> real" where
  "squaredNorm v = dot v v"

definition norm_vec :: "vec \<Rightarrow> real" where
  "norm_vec v = sqrt (squaredNorm v)"

fun transpose_mat :: "mat \<Rightarrow> mat" where
  "transpose_mat [] = []"
| "transpose_mat [r] = map (\<lambda>x. [x]) r"
| "transpose_mat (r # rs) = map2 (#) r (transpose_mat rs)"

definition mat_vec :: "mat \<Rightarrow> vec \<Rightarrow> vec" where
  "mat_vec A v = map (\<lambda>row. dot row v) A"

definition mat_mul :: "mat \<Rightarrow> mat \<Rightarrow> mat" where
  "mat_mul A B = map (\<lambda>row. map (dot row) (transpose_mat B)) A"

subsection \<open>Data model\<close>

text \<open>Per-kind default weights (\<open>gnParams.pairWeights\<close>, copied into the local \<open>w\<close>).\<close>

record PairWeights =
  pt2pt :: real
  pt2ln :: real
  pt2pl :: real
  pl2pl :: real
  ln2ln :: real

text \<open>
  The pairings: five sequences of correspondence records, opaque to this procedure, and
  the table \<open>point_weights\<close> of (block length, weight) pairs.
\<close>

record ('pp, 'pl, 'll, 'ppl, 'plpl) Pairings =
  paired_pt2pt :: "'pp list"
  paired_pt2ln :: "'pl list"
  paired_pt2pl :: "'ppl list"
  paired_pl2pl :: "'plpl list"
  paired_ln2ln :: "'ll list"
  point_weights :: "(nat \<times> real) list"

record ('pose, 'k) OptimalTF_GN_Parameters =
  linearizationPoint :: "'pose option"
  kernel :: 'k
  kernelParam :: real
  pairWeights :: PairWeights
  maxInnerLoopIterations :: nat
  maxCost :: real
  minDelta :: real
  verbose :: bool

text \<open>
  The result object.  Only \<open>optimalPose\<close> is named by the procedure; whatever else the
  object holds is the extension part of the record.
\<close>

record 'pose OptimalTF_Result =
  optimalPose :: 'pose

text \<open>
  The collaborators the procedure calls and that live outside this file: the five error
  terms (each returns the residual and its Jacobian with respect to the twelve pose
  parameters), the Jacobian of the exponential map, the exponential map, pose composition
  (\<open>operator+\<close> of the pose type), the column-pivoting Householder QR solve, and the
  robust-kernel factory (an empty \<open>std::function\<close> is \<open>None\<close>).
\<close>

record ('pose, 'pp, 'pl, 'll, 'ppl, 'plpl, 'k) collaborators =
  error_point2point :: "'pp \<Rightarrow> 'pose \<Rightarrow> vec \<times> mat"
  error_point2line :: "'pl \<Rightarrow> 'pose \<Rightarrow> vec \<times> mat"
  error_line2line :: "'ll \<Rightarrow> 'pose \<Rightarrow> vec \<times> mat"
  error_point2plane :: "'ppl \<Rightarrow> 'pose \<Rightarrow> vec \<times> mat"
  error_plane2plane :: "'plpl \<Rightarrow> 'pose \<Rightarrow> vec \<times> mat"
  jacob_dDexpe_de :: "'pose \<Rightarrow> mat"
  SE3_exp :: "vec \<Rightarrow> 'pose"
  pose_compose :: "'pose \<Rightarrow> 'pose \<Rightarrow> 'pose"
  colPivHouseholderQr_solve :: "mat \<Rightarrow> vec \<Rightarrow> vec"
  create_robust_kernel :: "'k \<Rightarrow> real \<Rightarrow> (real \<Rightarrow> real) option"

text \<open>
  How a call can end other than by returning: the two assertions of the source, and a
  dereference of the past-the-end iterator of \<open>point_weights\<close>, which is undefined
  behaviour in C++ and is kept apart from the assertions.
\<close>

datatype abort =
  Assert_linearizationPoint
  | Assert_point_weights_end
  | Undefined_deref_end

text \<open>
  The variables of the function body that live across statements: the result object
  (whose \<open>optimalPose\<close> is the current pose), \<open>g\<close>, \<open>H\<close>, \<open>w\<close>, the block cursor
  \<open>cur_point_block_weights\<close> (an iterator, here its offset from \<open>begin()\<close>, so that the
  length of the table is \<open>end()\<close>), \<open>cur_point_block_start\<close> and \<open>errNormSqr\<close>.
\<close>

record ('pose, 'm) gn_locals =
  result :: "('pose, 'm) OptimalTF_Result_scheme"
  var_g :: vec
  var_H :: mat
  var_w :: PairWeights
  cur_point_block_weights :: nat
  cur_point_block_start :: nat
  errNormSqr :: real

subsection \<open>The body of one correspondence\<close>

text \<open>
  The block that the source repeats in each of its five inner loops: apply the robust
  kernel to the base weight, scale the residual and the projected Jacobian, and add to
  \<open>errNormSqr\<close>, \<open>g\<close> and \<open>H\<close>.  \<open>weight * J1 * dDexpe_de\<close> associates to the left.
\<close>

definition accumulate_term ::
  "mat \<Rightarrow> (real \<Rightarrow> real) option \<Rightarrow> real \<Rightarrow> vec \<times> mat
    \<Rightarrow> ('pose, 'm) gn_locals \<Rightarrow> ('pose, 'm) gn_locals" where
  "accumulate_term dDexpe_de robustSqrtWeightFunc w0 rJ st =
    (let ret = fst rJ; J1 = snd rJ;
         weight = (case robustSqrtWeightFunc of
                     None \<Rightarrow> w0
                   | Some f \<Rightarrow> w0 * f (squaredNorm ret));
         err_i = smult_vec weight ret;
         Ji = mat_mul (smult_mat weight J1) dDexpe_de
     in st\<lparr> errNormSqr := errNormSqr st + squaredNorm err_i,
            var_g := vec_add (var_g st) (mat_vec (transpose_mat Ji) err_i),
            var_H := mat_add (var_H st) (mat_mul (transpose_mat Ji) Ji) \<rparr>)"

subsection \<open>The weight of a point-to-point correspondence\<close>

text \<open>
  Lines 75 to 85.  The condition of the inner \<open>if\<close> reads \<open>cur_point_block_weights->first\<close>
  before the assertion is evaluated, and \<open>->second\<close> is read after the increment; both
  reads are undefined when the iterator is \<open>end()\<close>.  The sum in the condition is
  unsigned and wraps around.
\<close>

definition size_t_modulus :: nat where
  "size_t_modulus = 2 ^ 64"

definition get_point_weight ::
  "(nat \<times> real) list \<Rightarrow> nat \<Rightarrow> ('pose, 'm) gn_locals \<Rightarrow> abort + ('pose, 'm) gn_locals" where
  "get_point_weight tbl idx_pt st =
    (if tbl \<noteq> [] then
       (if length tbl \<le> cur_point_block_weights st then Inl Undefined_deref_end
        else if (cur_point_block_start st + fst (tbl ! cur_point_block_weights st))
                  mod size_t_modulus \<le> idx_pt then
          (if cur_point_block_weights st = length tbl then Inl Assert_point_weights_end
           else
             (let c = Suc (cur_point_block_weights st) in
              if length tbl \<le> c then Inl Undefined_deref_end
              else Inr (st\<lparr> cur_point_block_weights := c,
                            cur_point_block_start := idx_pt,
                            var_w := (var_w st)\<lparr> pt2pt := snd (tbl ! c) \<rparr> \<rparr>)))
        else Inr (st\<lparr> var_w := (var_w st)\<lparr> pt2pt := snd (tbl ! cur_point_block_weights st) \<rparr> \<rparr>))
     else Inr st)"

subsection \<open>The five inner loops\<close>

fun pt2pt_loop ::
  "('pp \<Rightarrow> 'pose \<Rightarrow> vec \<times> mat) \<Rightarrow> (nat \<times> real) list \<Rightarrow> mat \<Rightarrow> (real \<Rightarrow> real) option
    \<Rightarrow> nat \<Rightarrow> 'pp list \<Rightarrow> ('pose, 'm) gn_locals \<Rightarrow> abort + ('pose, 'm) gn_locals" where
  "pt2pt_loop err tbl dDexpe_de rk idx_pt [] st = Inr st"
| "pt2pt_loop err tbl dDexpe_de rk idx_pt (p # ps) st =
    (case get_point_weight tbl idx_pt st of
       Inl a \<Rightarrow> Inl a
     | Inr st1 \<Rightarrow>
         pt2pt_loop err tbl dDexpe_de rk (Suc idx_pt) ps
           (accumulate_term dDexpe_de rk (pt2pt (var_w st1))
              (err p (optimalPose (result st1))) st1))"

text \<open>The other four loops have no failing statement: a fold over the sequence.\<close>

definition kind_loop ::
  "('c \<Rightarrow> 'pose \<Rightarrow> vec \<times> mat) \<Rightarrow> (PairWeights \<Rightarrow> real) \<Rightarrow> mat \<Rightarrow> (real \<Rightarrow> real) option
    \<Rightarrow> 'c list \<Rightarrow> ('pose, 'm) gn_locals \<Rightarrow> ('pose, 'm) gn_locals" where
  "kind_loop err sel dDexpe_de rk ps st =
    fold (\<lambda>p s. accumulate_term dDexpe_de rk (sel (var_w s))
                  (err p (optimalPose (result s))) s) ps st"

text \<open>
  Lines 59 to 195: the Jacobian of the exponential map at the current pose, the reset of
  \<open>errNormSqr\<close>, then the loops in the order of the source.
\<close>

definition accumulate ::
  "('pose, 'pp, 'pl, 'll, 'ppl, 'plpl, 'k) collaborators
    \<Rightarrow> ('pp, 'pl, 'll, 'ppl, 'plpl) Pairings \<Rightarrow> (real \<Rightarrow> real) option
    \<Rightarrow> ('pose, 'm) gn_locals \<Rightarrow> abort + ('pose, 'm) gn_locals" where
  "accumulate env inp rk st =
    (let dDexpe_de = jacob_dDexpe_de env (optimalPose (result st));
         st0 = st\<lparr> errNormSqr := 0 \<rparr>
     in case pt2pt_loop (error_point2point env) (point_weights inp) dDexpe_de rk 0
               (paired_pt2pt inp) st0 of
          Inl a \<Rightarrow> Inl a
        | Inr st1 \<Rightarrow>
            Inr (kind_loop (error_plane2plane env) pl2pl dDexpe_de rk (paired_pl2pl inp)
                (kind_loop (error_point2plane env) pt2pl dDexpe_de rk (paired_pt2pl inp)
                (kind_loop (error_line2line env) ln2ln dDexpe_de rk (paired_ln2ln inp)
                (kind_loop (error_point2line env) pt2ln dDexpe_de rk (paired_pt2ln inp)
                   st1)))))"

subsection \<open>One iteration and the outer loop\<close>

text \<open>How the body of the outer loop ends: by an abort, by one of its two \<open>break\<close>
  statements, or by reaching its end.\<close>

datatype 'st iteration_end =
  Abort abort
  | BreakCost 'st
  | BreakDelta 'st
  | Next 'st

definition gn_iteration ::
  "('pose, 'pp, 'pl, 'll, 'ppl, 'plpl, 'k) collaborators
    \<Rightarrow> ('pp, 'pl, 'll, 'ppl, 'plpl) Pairings \<Rightarrow> ('pose, 'k) OptimalTF_GN_Parameters
    \<Rightarrow> (real \<Rightarrow> real) option
    \<Rightarrow> ('pose, 'm) gn_locals \<Rightarrow> ('pose, 'm) gn_locals iteration_end" where
  "gn_iteration env inp gnParams rk st =
    (case accumulate env inp rk st of
       Inl a \<Rightarrow> Abort a
     | Inr st1 \<Rightarrow>
         (let errNorm = sqrt (errNormSqr st1) in
          if errNorm \<le> maxCost gnParams then BreakCost st1
          else
            (let delta = vec_neg (colPivHouseholderQr_solve env (var_H st1) (var_g st1));
                 dE = SE3_exp env delta;
                 st2 = st1\<lparr> result := (result st1)
                          \<lparr> optimalPose := pose_compose env (optimalPose (result st1)) dE \<rparr> \<rparr>
             in if norm_vec delta < minDelta gnParams then BreakDelta st2 else Next st2)))"

text \<open>How the outer loop ends, and the locals at that moment.  On an abort the locals are
  those at the start of the aborted iteration: the pose is not written before line 212.\<close>

datatype loop_end =
  Aborted abort
  | ExitCost
  | ExitDelta
  | ExitBudget

text \<open>The outer loop, by recursion on the number \<open>maxInnerLoopIterations - iter\<close> of
  iterations left; \<open>iter\<close> itself is only printed.\<close>

fun gn_loop ::
  "('pose, 'pp, 'pl, 'll, 'ppl, 'plpl, 'k) collaborators
    \<Rightarrow> ('pp, 'pl, 'll, 'ppl, 'plpl) Pairings \<Rightarrow> ('pose, 'k) OptimalTF_GN_Parameters
    \<Rightarrow> (real \<Rightarrow> real) option
    \<Rightarrow> nat \<Rightarrow> ('pose, 'm) gn_locals \<Rightarrow> loop_end \<times> ('pose, 'm) gn_locals" where
  "gn_loop env inp gnParams rk 0 st = (ExitBudget, st)"
| "gn_loop env inp gnParams rk (Suc n) st =
    (case gn_iteration env inp gnParams rk st of
       Abort a \<Rightarrow> (Aborted a, st)
     | BreakCost st1 \<Rightarrow> (ExitCost, st1)
     | BreakDelta st1 \<Rightarrow> (ExitDelta, st1)
     | Next st1 \<Rightarrow> gn_loop env inp gnParams rk n st1)"

subsection \<open>The procedure\<close>

text \<open>The locals as they stand when the outer loop is entered (lines 37 to 55).\<close>

definition initial_locals ::
  "('pose, 'm) OptimalTF_Result_scheme \<Rightarrow> ('pose, 'k) OptimalTF_GN_Parameters \<Rightarrow> 'pose
    \<Rightarrow> ('pose, 'm) gn_locals" where
  "initial_locals res gnParams p =
    \<lparr> result = res\<lparr> optimalPose := p \<rparr>,
      var_g = zero_vec 6,
      var_H = zero_mat 6 6,
      var_w = pairWeights gnParams,
      cur_point_block_weights = 0,
      cur_point_block_start = 0,
      errNormSqr = 0 \<rparr>"

text \<open>
  The call: how it ended (an abort, or the returned boolean) and the caller's result
  object afterwards.
\<close>

definition optimal_tf_gauss_newton ::
  "('pose, 'pp, 'pl, 'll, 'ppl, 'plpl, 'k) collaborators
    \<Rightarrow> ('pp, 'pl, 'll, 'ppl, 'plpl) Pairings \<Rightarrow> ('pose, 'm) OptimalTF_Result_scheme
    \<Rightarrow> ('pose, 'k) OptimalTF_GN_Parameters
    \<Rightarrow> (abort + bool) \<times> ('pose, 'm) OptimalTF_Result_scheme" where
  "optimal_tf_gauss_newton env inp res gnParams =
    (case linearizationPoint gnParams of
       None \<Rightarrow> (Inl Assert_linearizationPoint, res)
     | Some p \<Rightarrow>
         (let robustSqrtWeightFunc =
                create_robust_kernel env (kernel gnParams) (kernelParam gnParams);
              fin = gn_loop env inp gnParams robustSqrtWeightFunc
                      (maxInnerLoopIterations gnParams) (initial_locals res gnParams p)
          in case fst fin of
               Aborted a \<Rightarrow> (Inl a, result (snd fin))
             | _ \<Rightarrow> (Inr True, result (snd fin))))"

section \<open>Notions used to state the properties\<close>

subsection \<open>Coverage of the point-to-point sequence by the block table\<close>

text \<open>
  The cursor is in range, its block starts no earlier than the lengths of the blocks
  before it add up to, and no later than the index \<open>n\<close>.
\<close>

definition cursor_ok :: "(nat \<times> real) list \<Rightarrow> nat \<Rightarrow> ('pose, 'm) gn_locals \<Rightarrow> bool" where
  "cursor_ok tbl n st \<longleftrightarrow>
     cur_point_block_weights st < length tbl \<and>
     sum_list (map fst (take (cur_point_block_weights st) tbl)) \<le> cur_point_block_start st \<and>
     cur_point_block_start st \<le> n"

text \<open>The table is absent, or it is long enough for the point-to-point sequence, with
  sizes that keep the sum of line 78 below \<open>2 ^ 64\<close>.\<close>

definition table_covers :: "('pp, 'pl, 'll, 'ppl, 'plpl) Pairings \<Rightarrow> bool" where
  "table_covers inp \<longleftrightarrow>
     point_weights inp = [] \<or>
     (length (paired_pt2pt inp) \<le> sum_list (map fst (point_weights inp)) \<and>
      length (paired_pt2pt inp) + sum_list (map fst (point_weights inp)) < size_t_modulus)"

definition locals_ok :: "('pp, 'pl, 'll, 'ppl, 'plpl) Pairings \<Rightarrow> ('pose, 'm) gn_locals \<Rightarrow> bool" where
  "locals_ok inp st \<longleftrightarrow>
     point_weights inp = [] \<or> cursor_ok (point_weights inp) (length (paired_pt2pt inp)) st"

subsection \<open>Weighted terms and their sums\<close>

text \<open>
  The weighting as the specification words it: the base weight times the robust
  multiplier of the squared norm of the raw residual (multiplier 1 without a kernel),
  applied to the residual and to the Jacobian projected by the tangent-space Jacobian.
\<close>

definition robust_weight :: "(real \<Rightarrow> real) option \<Rightarrow> real \<Rightarrow> vec \<Rightarrow> real" where
  "robust_weight rk base ret =
     base * (case rk of None \<Rightarrow> 1 | Some f \<Rightarrow> f (squaredNorm ret))"

definition weighted_term :: "mat \<Rightarrow> (real \<Rightarrow> real) option \<Rightarrow> real \<Rightarrow> vec \<times> mat \<Rightarrow> vec \<times> mat" where
  "weighted_term D rk base rJ =
     (smult_vec (robust_weight rk base (fst rJ)) (fst rJ),
      mat_mul (smult_mat (robust_weight rk base (fst rJ)) (snd rJ)) D)"

definition sum_sq :: "(vec \<times> mat) list \<Rightarrow> real" where
  "sum_sq ts = sum_list (map (\<lambda>t. squaredNorm (fst t)) ts)"

definition sum_g :: "vec \<Rightarrow> (vec \<times> mat) list \<Rightarrow> vec" where
  "sum_g g0 ts = foldl vec_add g0 (map (\<lambda>t. mat_vec (transpose_mat (snd t)) (fst t)) ts)"

definition sum_H :: "mat \<Rightarrow> (vec \<times> mat) list \<Rightarrow> mat" where
  "sum_H H0 ts = foldl mat_add H0 (map (\<lambda>t. mat_mul (transpose_mat (snd t)) (snd t)) ts)"

text \<open>The weighted terms of one iteration, in the order the source visits them, for the
  base weights \<open>bs\<close> of the point-to-point correspondences.\<close>

definition iteration_terms ::
  "('pose, 'pp, 'pl, 'll, 'ppl, 'plpl, 'k) collaborators
    \<Rightarrow> ('pp, 'pl, 'll, 'ppl, 'plpl) Pairings \<Rightarrow> (real \<Rightarrow> real) option
    \<Rightarrow> 'pose \<Rightarrow> PairWeights \<Rightarrow> real list \<Rightarrow> (vec \<times> mat) list" where
  "iteration_terms env inp rk x w bs =
    (let D = jacob_dDexpe_de env x in
       map2 (\<lambda>b p. weighted_term D rk b (error_point2point env p x)) bs (paired_pt2pt inp)
     @ map (\<lambda>p. weighted_term D rk (pt2ln w) (error_point2line env p x)) (paired_pt2ln inp)
     @ map (\<lambda>p. weighted_term D rk (ln2ln w) (error_line2line env p x)) (paired_ln2ln inp)
     @ map (\<lambda>p. weighted_term D rk (pt2pl w) (error_point2plane env p x)) (paired_pt2pl inp)
     @ map (\<lambda>p. weighted_term D rk (pl2pl w) (error_plane2plane env p x)) (paired_pl2pl inp))"

subsection \<open>Zero residuals, and a pose composed with a sequence of increments\<close>

definition zero_residual :: "vec \<times> mat \<Rightarrow> bool" where
  "zero_residual rJ \<longleftrightarrow> list_all (\<lambda>x. x = 0) (fst rJ)"

text \<open>Every supplied correspondence, of each of the five kinds, has a zero residual at
  the pose \<open>x\<close>.\<close>

definition all_residuals_zero ::
  "('pose, 'pp, 'pl, 'll, 'ppl, 'plpl, 'k) collaborators
    \<Rightarrow> ('pp, 'pl, 'll, 'ppl, 'plpl) Pairings \<Rightarrow> 'pose \<Rightarrow> bool" where
  "all_residuals_zero env inp x \<longleftrightarrow>
     list_all (\<lambda>p. zero_residual (error_point2point env p x)) (paired_pt2pt inp)
   \<and> list_all (\<lambda>p. zero_residual (error_point2line env p x)) (paired_pt2ln inp)
   \<and> list_all (\<lambda>p. zero_residual (error_line2line env p x)) (paired_ln2ln inp)
   \<and> list_all (\<lambda>p. zero_residual (error_point2plane env p x)) (paired_pt2pl inp)
   \<and> list_all (\<lambda>p. zero_residual (error_plane2plane env p x)) (paired_pl2pl inp)"

text \<open>Composing a pose with the exponential images of a sequence of increments.\<close>

definition compose_all ::
  "('pose, 'pp, 'pl, 'll, 'ppl, 'plpl, 'k) collaborators \<Rightarrow> 'pose \<Rightarrow> vec list \<Rightarrow> 'pose" where
  "compose_all env x ds = foldl (\<lambda>y d. pose_compose env y (SE3_exp env d)) x ds"

subsection \<open>The block table as a lookup\<close>

text \<open>
  The weight the block table assigns to index \<open>i\<close> of the point-to-point sequence, as the
  specification words it: the weight of the block whose cumulative-length range
  contains \<open>i\<close>.
\<close>

fun block_weight :: "(nat \<times> real) list \<Rightarrow> nat \<Rightarrow> real option" where
  "block_weight [] i = None"
| "block_weight (b # bs) i = (if i < fst b then Some (snd b) else block_weight bs (i - fst b))"

text \<open>
  The cursor stands on the block that holds index \<open>idx\<close>, or on the block before it when
  \<open>idx\<close> is the first index after that block.
\<close>

definition cursor_at :: "(nat \<times> real) list \<Rightarrow> nat \<Rightarrow> ('pose, 'm) gn_locals \<Rightarrow> bool" where
  "cursor_at tbl idx st \<longleftrightarrow>
     cur_point_block_weights st < length tbl
   \<and> cur_point_block_start st = sum_list (map fst (take (cur_point_block_weights st) tbl))
   \<and> cur_point_block_start st \<le> idx
   \<and> idx \<le> cur_point_block_start st + fst (tbl ! cur_point_block_weights st)"

section \<open>Concrete collaborators and inputs for evaluation\<close>

text \<open>
  Stand-ins for the collaborators on poses that are pure translations: the pose is its
  translation vector, a point-to-point pairing is the pair of the local and the global
  point, its residual is \<open>local + t - global\<close>, whose Jacobian in the twelve pose
  parameters is the identity in the three translation columns.  The solver divides by
  the diagonal and returns 0 where the diagonal vanishes.
\<close>

definition tr_J1 :: mat where
  "tr_J1 = [[0,0,0,0,0,0,0,0,0,1,0,0],
            [0,0,0,0,0,0,0,0,0,0,1,0],
            [0,0,0,0,0,0,0,0,0,0,0,1]]"

definition tr_dDexpe_de :: mat where
  "tr_dDexpe_de = [[0,0,0,0,0,0],[0,0,0,0,0,0],[0,0,0,0,0,0],
                   [0,0,0,0,0,0],[0,0,0,0,0,0],[0,0,0,0,0,0],
                   [0,0,0,0,0,0],[0,0,0,0,0,0],[0,0,0,0,0,0],
                   [1,0,0,0,0,0],[0,1,0,0,0,0],[0,0,1,0,0,0]]"

fun diag_solve :: "mat \<Rightarrow> vec \<Rightarrow> vec" where
  "diag_solve (r # rs) (b # bs) = (if hd r = 0 then 0 else b / hd r) # diag_solve (map tl rs) bs"
| "diag_solve _ _ = []"

definition tr_env :: "(vec, vec \<times> vec, unit, unit, unit, unit, bool) collaborators" where
  "tr_env =
    \<lparr> error_point2point = (\<lambda>p t. (vec_add (vec_add (fst p) t) (vec_neg (snd p)), tr_J1)),
      error_point2line = (\<lambda>p t. (zero_vec 3, zero_mat 3 12)),
      error_line2line = (\<lambda>p t. (zero_vec 4, zero_mat 4 12)),
      error_point2plane = (\<lambda>p t. (zero_vec 3, zero_mat 3 12)),
      error_plane2plane = (\<lambda>p t. (zero_vec 3, zero_mat 3 12)),
      jacob_dDexpe_de = (\<lambda>t. tr_dDexpe_de),
      SE3_exp = take 3,
      pose_compose = vec_add,
      colPivHouseholderQr_solve = diag_solve,
      create_robust_kernel = (\<lambda>k c. if k then Some (\<lambda>e. c / (c + e)) else None) \<rparr>"

definition unit_weights :: PairWeights where
  "unit_weights = \<lparr> pt2pt = 1, pt2ln = 1, pt2pl = 1, pl2pl = 1, ln2ln = 1 \<rparr>"

definition tr_params :: "vec option \<Rightarrow> nat \<Rightarrow> (vec, bool) OptimalTF_GN_Parameters" where
  "tr_params lp n =
    \<lparr> linearizationPoint = lp, kernel = False, kernelParam = 1, pairWeights = unit_weights,
      maxInnerLoopIterations = n, maxCost = 0, minDelta = 0, verbose = False \<rparr>"

definition tr_pairings ::
  "(vec \<times> vec) list \<Rightarrow> (nat \<times> real) list \<Rightarrow> (vec \<times> vec, unit, unit, unit, unit) Pairings" where
  "tr_pairings ps tbl =
    \<lparr> paired_pt2pt = ps, paired_pt2ln = [], paired_pt2pl = [], paired_pl2pl = [],
      paired_ln2ln = [], point_weights = tbl \<rparr>"

definition opposed_points :: "(vec \<times> vec) list" where
  "opposed_points = [([0,0,0], [1,0,0]), ([0,0,0], [-1,0,0])]"

definition res_origin :: "vec OptimalTF_Result" where
  "res_origin = \<lparr> optimalPose = [0,0,0] \<rparr>"

definition diag6 :: "real \<Rightarrow> mat" where
  "diag6 a = [[a,0,0,0,0,0],[0,a,0,0,0,0],[0,0,a,0,0,0],
              [0,0,0,0,0,0],[0,0,0,0,0,0],[0,0,0,0,0,0]]"

definition tr_locals ::
  "vec \<Rightarrow> vec \<Rightarrow> mat \<Rightarrow> real \<Rightarrow> nat \<Rightarrow> nat \<Rightarrow> real \<Rightarrow> (vec, unit) gn_locals" where
  "tr_locals x gv Hm wp c s e =
    \<lparr> result = \<lparr> optimalPose = x \<rparr>, var_g = gv, var_H = Hm,
      var_w = unit_weights\<lparr> pt2pt := wp \<rparr>,
      cur_point_block_weights = c, cur_point_block_start = s, errNormSqr = e \<rparr>"

definition two_blocks :: "(nat \<times> real) list" where
  "two_blocks = [(1,1), (1,2)]"

definition one_block :: "nat \<Rightarrow> real \<Rightarrow> (nat \<times> real) list" where
  "one_block n wt = [(n, wt)]"

definition three_points :: "(vec \<times> vec) list" where
  "three_points = [([0,0,0], [1,0,0]), ([0,0,0], [-1,0,0]), ([0,0,0], [0,1,0])]"

definition coincident_points :: "(vec \<times> vec) list" where
  "coincident_points = [([0,0,0], [1,0,0]), ([0,0,0], [1,0,0])]"

section \<open>Properties of the loops\<close>

subsection \<open>What the inner loops leave alone\<close>

lemma accumulate_term_frame [simp]:
  "result (accumulate_term D rk b rJ st) = result st"
  "var_w (accumulate_term D rk b rJ st) = var_w st"
  "cur_point_block_weights (accumulate_term D rk b rJ st) = cur_point_block_weights st"
  "cur_point_block_start (accumulate_term D rk b rJ st) = cur_point_block_start st"
  by (simp_all add: accumulate_term_def Let_def)

lemma kind_loop_frame [simp]:
  "result (kind_loop err sel D rk ps st) = result st"
  "var_w (kind_loop err sel D rk ps st) = var_w st"
  "cur_point_block_weights (kind_loop err sel D rk ps st) = cur_point_block_weights st"
  "cur_point_block_start (kind_loop err sel D rk ps st) = cur_point_block_start st"
  unfolding kind_loop_def by (induction ps arbitrary: st; simp)+

lemma get_point_weight_frame:
  assumes "get_point_weight tbl idx st = Inr st1"
  shows "result st1 = result st" and "var_g st1 = var_g st" and "var_H st1 = var_H st"
    and "errNormSqr st1 = errNormSqr st"
    and "pt2ln (var_w st1) = pt2ln (var_w st)" and "pt2pl (var_w st1) = pt2pl (var_w st)"
    and "pl2pl (var_w st1) = pl2pl (var_w st)" and "ln2ln (var_w st1) = ln2ln (var_w st)"
  using assms by (auto simp: get_point_weight_def Let_def split: if_splits)

lemma pt2pt_loop_frame:
  assumes "pt2pt_loop err tbl D rk idx ps st = Inr st1"
  shows "result st1 = result st \<and> pt2ln (var_w st1) = pt2ln (var_w st)
    \<and> pt2pl (var_w st1) = pt2pl (var_w st) \<and> pl2pl (var_w st1) = pl2pl (var_w st)
    \<and> ln2ln (var_w st1) = ln2ln (var_w st)"
  using assms
proof (induction ps arbitrary: idx st)
  case Nil
  then show ?case by simp
next
  case (Cons p ps)
  from Cons.prems obtain s where s: "get_point_weight tbl idx st = Inr s"
    by (cases "get_point_weight tbl idx st") auto
  with Cons.prems have
    "pt2pt_loop err tbl D rk (Suc idx) ps
       (accumulate_term D rk (pt2pt (var_w s)) (err p (optimalPose (result s))) s) = Inr st1"
    by simp
  from Cons.IH [OF this] get_point_weight_frame [OF s] show ?case by simp
qed

lemma accumulate_frame:
  assumes "accumulate env inp rk st = Inr st1"
  shows "result st1 = result st"
  using assms pt2pt_loop_frame
  by (fastforce simp: accumulate_def Let_def split: sum.splits)


subsection \<open>The block cursor\<close>

lemma get_point_weight_no_assert:
  "get_point_weight tbl idx st \<noteq> Inl Assert_point_weights_end"
  by (simp add: get_point_weight_def Let_def)

lemma pt2pt_loop_no_assert:
  "pt2pt_loop err tbl D rk idx ps st \<noteq> Inl Assert_point_weights_end"
proof (induction ps arbitrary: idx st)
  case Nil
  show ?case by simp
next
  case (Cons p ps)
  show ?case
    using Cons.IH get_point_weight_no_assert [of tbl idx st]
    by (cases "get_point_weight tbl idx st") auto
qed

lemma accumulate_no_assert:
  "accumulate env inp rk st \<noteq> Inl Assert_point_weights_end"
  using pt2pt_loop_no_assert
  by (fastforce simp: accumulate_def Let_def split: sum.splits)

lemma gn_iteration_no_assert:
  "gn_iteration env inp P rk st \<noteq> Abort Assert_point_weights_end"
  using accumulate_no_assert [of env inp rk st]
  by (auto simp: gn_iteration_def Let_def split: sum.splits)

lemma gn_loop_no_assert:
  "fst (gn_loop env inp P rk n st) \<noteq> Aborted Assert_point_weights_end"
proof (induction n arbitrary: st)
  case 0
  show ?case by simp
next
  case (Suc n)
  show ?case
    using Suc.IH gn_iteration_no_assert [of env inp P rk st]
    by (cases "gn_iteration env inp P rk st") auto
qed

lemma cursor_ok_accumulate_term [simp]:
  "cursor_ok tbl n (accumulate_term D rk b rJ st) = cursor_ok tbl n st"
  by (simp add: cursor_ok_def)

lemma sum_list_take_Suc:
  "c < length xs \<Longrightarrow> sum_list (map fst (take (Suc c) xs)) = sum_list (map fst (take c xs)) + fst (xs ! c)"
  by (simp add: take_Suc_conv_app_nth)

lemma fst_nth_le_sum_list:
  fixes xs :: "(nat \<times> 'a) list"
  shows "c < length xs \<Longrightarrow> fst (xs ! c) \<le> sum_list (map fst xs)"
proof (induction xs arbitrary: c)
  case Nil
  then show ?case by simp
next
  case (Cons x xs)
  show ?case
  proof (cases c)
    case 0
    then show ?thesis by simp
  next
    case (Suc c')
    with Cons.prems have "c' < length xs" by simp
    from Cons.IH [OF this] Suc show ?thesis by simp
  qed
qed

lemma get_point_weight_covered:
  assumes ok: "cursor_ok tbl n st" and idx: "idx < n" and cov: "n \<le> sum_list (map fst tbl)"
    and fit: "n + sum_list (map fst tbl) < size_t_modulus"
  shows "\<exists>st1. get_point_weight tbl idx st = Inr st1 \<and> cursor_ok tbl n st1"
proof -
  let ?c = "cur_point_block_weights st"
  let ?s = "cur_point_block_start st"
  from ok have c: "?c < length tbl"
    and s: "sum_list (map fst (take ?c tbl)) \<le> ?s" and sn: "?s \<le> n"
    by (simp_all add: cursor_ok_def)
  from c have ne: "tbl \<noteq> []" by auto
  from fst_nth_le_sum_list [OF c] sn fit
  have nowrap: "(?s + fst (tbl ! ?c)) mod size_t_modulus = ?s + fst (tbl ! ?c)"
    by simp
  show ?thesis
  proof (cases "?s + fst (tbl ! ?c) \<le> idx")
    case False
    with c ne ok nowrap show ?thesis by (simp add: get_point_weight_def cursor_ok_def)
  next
    case True
    with s sum_list_take_Suc [OF c] have le: "sum_list (map fst (take (Suc ?c) tbl)) \<le> idx"
      by simp
    have "Suc ?c < length tbl"
    proof (rule ccontr)
      assume "\<not> Suc ?c < length tbl"
      with c have "take (Suc ?c) tbl = tbl" by simp
      with le idx cov show False by simp
    qed
    with True c ne le idx nowrap show ?thesis
      by (simp add: get_point_weight_def cursor_ok_def Let_def)
  qed
qed

lemma pt2pt_loop_covered:
  assumes "cursor_ok tbl n st" and "idx + length ps \<le> n" and "n \<le> sum_list (map fst tbl)"
    and "n + sum_list (map fst tbl) < size_t_modulus"
  shows "\<exists>st1. pt2pt_loop err tbl D rk idx ps st = Inr st1 \<and> cursor_ok tbl n st1"
  using assms
proof (induction ps arbitrary: idx st)
  case Nil
  then show ?case by simp
next
  case (Cons p ps)
  from Cons.prems have "idx < n" by simp
  from get_point_weight_covered [OF Cons.prems(1) this Cons.prems(3,4)]
  obtain s where s: "get_point_weight tbl idx st = Inr s" and ok: "cursor_ok tbl n s" by blast
  let ?s = "accumulate_term D rk (pt2pt (var_w s)) (err p (optimalPose (result s))) s"
  from ok have "cursor_ok tbl n ?s" by simp
  moreover from Cons.prems have "Suc idx + length ps \<le> n" by simp
  ultimately obtain st1 where
    "pt2pt_loop err tbl D rk (Suc idx) ps ?s = Inr st1 \<and> cursor_ok tbl n st1"
    using Cons.IH Cons.prems(3,4) by blast
  with s show ?case by simp
qed

lemma get_point_weight_no_table:
  "get_point_weight [] idx st = Inr st"
  by (simp add: get_point_weight_def)

lemma pt2pt_loop_no_table:
  "\<exists>st1. pt2pt_loop err [] D rk idx ps st = Inr st1"
  by (induction ps arbitrary: idx st) (simp_all add: get_point_weight_no_table)

lemma accumulate_covered:
  assumes "table_covers inp" and "locals_ok inp st"
  shows "\<exists>st1. accumulate env inp rk st = Inr st1 \<and> locals_ok inp st1"
proof (cases "point_weights inp = []")
  case True
  then show ?thesis
    using pt2pt_loop_no_table [of "error_point2point env" "jacob_dDexpe_de env (optimalPose (result st))"
        rk 0 "paired_pt2pt inp" "st\<lparr>errNormSqr := 0\<rparr>"]
    by (auto simp: accumulate_def Let_def locals_ok_def)
next
  case False
  let ?n = "length (paired_pt2pt inp)"
  from False assms have ok: "cursor_ok (point_weights inp) ?n (st\<lparr>errNormSqr := 0\<rparr>)"
    and cov: "?n \<le> sum_list (map fst (point_weights inp))"
    and fit: "?n + sum_list (map fst (point_weights inp)) < size_t_modulus"
    by (simp_all add: table_covers_def locals_ok_def cursor_ok_def)
  have "0 + length (paired_pt2pt inp) \<le> ?n" by simp
  from pt2pt_loop_covered [OF ok this cov fit]
  obtain st1 where "pt2pt_loop (error_point2point env) (point_weights inp)
      (jacob_dDexpe_de env (optimalPose (result st))) rk 0 (paired_pt2pt inp) (st\<lparr>errNormSqr := 0\<rparr>) = Inr st1"
    and "cursor_ok (point_weights inp) ?n st1" by blast
  then show ?thesis
    by (simp add: accumulate_def Let_def locals_ok_def cursor_ok_def)
qed

lemma gn_iteration_covered:
  assumes "table_covers inp" and "locals_ok inp st"
  shows "gn_iteration env inp P rk st \<noteq> Abort a"
    and "gn_iteration env inp P rk st = BreakCost s \<Longrightarrow> locals_ok inp s"
    and "gn_iteration env inp P rk st = BreakDelta s \<Longrightarrow> locals_ok inp s"
    and "gn_iteration env inp P rk st = Next s \<Longrightarrow> locals_ok inp s"
  using accumulate_covered [OF assms, of env rk]
  by (auto simp: gn_iteration_def Let_def locals_ok_def cursor_ok_def split: if_splits)

lemma gn_loop_covered:
  assumes "table_covers inp" and "locals_ok inp st"
  shows "fst (gn_loop env inp P rk n st) \<noteq> Aborted a"
  using assms(2)
proof (induction n arbitrary: st)
  case 0
  show ?case by simp
next
  case (Suc n)
  show ?case
    using gn_iteration_covered [OF assms(1) Suc.prems, of env P rk] Suc.IH
    by (cases "gn_iteration env inp P rk st") auto
qed

lemma initial_locals_ok:
  "locals_ok inp (initial_locals res P p)"
  by (cases "point_weights inp") (simp_all add: locals_ok_def cursor_ok_def initial_locals_def)

lemma optimal_tf_returns_true:
  assumes "linearizationPoint P = Some p" and "table_covers inp"
  shows "fst (optimal_tf_gauss_newton env inp res P) = Inr True"
proof -
  let ?fin = "gn_loop env inp P (create_robust_kernel env (kernel P) (kernelParam P))
                (maxInnerLoopIterations P) (initial_locals res P p)"
  have "\<And>a. fst ?fin \<noteq> Aborted a"
    by (rule gn_loop_covered [OF assms(2) initial_locals_ok])
  then show ?thesis
    by (cases "fst ?fin") (auto simp: optimal_tf_gauss_newton_def assms(1) Let_def)
qed


subsection \<open>What one iteration accumulates\<close>

lemma sum_sq_simps [simp]:
  "sum_sq [] = 0" "sum_sq (t # ts) = squaredNorm (fst t) + sum_sq ts"
  "sum_sq (ts @ us) = sum_sq ts + sum_sq us"
  by (simp_all add: sum_sq_def)

lemma sum_g_simps [simp]:
  "sum_g g0 [] = g0"
  "sum_g g0 (t # ts) = sum_g (vec_add g0 (mat_vec (transpose_mat (snd t)) (fst t))) ts"
  "sum_g g0 (ts @ us) = sum_g (sum_g g0 ts) us"
  by (simp_all add: sum_g_def)

lemma sum_H_simps [simp]:
  "sum_H H0 [] = H0"
  "sum_H H0 (t # ts) = sum_H (mat_add H0 (mat_mul (transpose_mat (snd t)) (snd t))) ts"
  "sum_H H0 (ts @ us) = sum_H (sum_H H0 ts) us"
  by (simp_all add: sum_H_def)

lemma accumulate_term_weighted:
  "errNormSqr (accumulate_term D rk b rJ st) = errNormSqr st + squaredNorm (fst (weighted_term D rk b rJ))"
  "var_g (accumulate_term D rk b rJ st) =
     vec_add (var_g st) (mat_vec (transpose_mat (snd (weighted_term D rk b rJ))) (fst (weighted_term D rk b rJ)))"
  "var_H (accumulate_term D rk b rJ st) =
     mat_add (var_H st) (mat_mul (transpose_mat (snd (weighted_term D rk b rJ))) (snd (weighted_term D rk b rJ)))"
  by (cases rk; simp add: accumulate_term_def weighted_term_def robust_weight_def Let_def)+

lemma kind_loop_Cons:
  "kind_loop err sel D rk (p # ps) st =
     kind_loop err sel D rk ps (accumulate_term D rk (sel (var_w st)) (err p (optimalPose (result st))) st)"
  by (simp add: kind_loop_def)

lemma kind_loop_Nil [simp]: "kind_loop err sel D rk [] st = st"
  by (simp add: kind_loop_def)

lemma kind_loop_sums:
  "errNormSqr (kind_loop err sel D rk ps st) =
     errNormSqr st + sum_sq (map (\<lambda>p. weighted_term D rk (sel (var_w st)) (err p (optimalPose (result st)))) ps)
   \<and> var_g (kind_loop err sel D rk ps st) =
     sum_g (var_g st) (map (\<lambda>p. weighted_term D rk (sel (var_w st)) (err p (optimalPose (result st)))) ps)
   \<and> var_H (kind_loop err sel D rk ps st) =
     sum_H (var_H st) (map (\<lambda>p. weighted_term D rk (sel (var_w st)) (err p (optimalPose (result st)))) ps)"
proof (induction ps arbitrary: st)
  case Nil
  show ?case by simp
next
  case (Cons p ps)
  show ?case
    using Cons.IH [of "accumulate_term D rk (sel (var_w st)) (err p (optimalPose (result st))) st"]
    by (simp add: kind_loop_Cons accumulate_term_weighted)
qed

lemma get_point_weight_base:
  assumes "get_point_weight tbl idx st = Inr st1"
  shows "(tbl = [] \<longrightarrow> pt2pt (var_w st1) = pt2pt (var_w st))
       \<and> (tbl \<noteq> [] \<longrightarrow> pt2pt (var_w st1) \<in> snd ` set tbl)"
  using assms by (auto simp: get_point_weight_def Let_def split: if_splits)

lemma pt2pt_loop_sums:
  assumes "pt2pt_loop err tbl D rk idx ps st = Inr st1"
  shows "\<exists>bs. length bs = length ps
         \<and> (tbl = [] \<longrightarrow> bs = replicate (length ps) (pt2pt (var_w st)))
         \<and> (tbl \<noteq> [] \<longrightarrow> set bs \<subseteq> snd ` set tbl)
         \<and> errNormSqr st1 = errNormSqr st
              + sum_sq (map2 (\<lambda>b p. weighted_term D rk b (err p (optimalPose (result st)))) bs ps)
         \<and> var_g st1 = sum_g (var_g st)
              (map2 (\<lambda>b p. weighted_term D rk b (err p (optimalPose (result st)))) bs ps)
         \<and> var_H st1 = sum_H (var_H st)
              (map2 (\<lambda>b p. weighted_term D rk b (err p (optimalPose (result st)))) bs ps)"
  using assms
proof (induction ps arbitrary: idx st)
  case Nil
  then show ?case by simp
next
  case (Cons p ps)
  from Cons.prems obtain s where s: "get_point_weight tbl idx st = Inr s"
    by (cases "get_point_weight tbl idx st") auto
  let ?s = "accumulate_term D rk (pt2pt (var_w s)) (err p (optimalPose (result s))) s"
  from Cons.prems s have "pt2pt_loop err tbl D rk (Suc idx) ps ?s = Inr st1" by simp
  from Cons.IH [OF this] obtain bs where bs: "length bs = length ps"
    "tbl = [] \<longrightarrow> bs = replicate (length ps) (pt2pt (var_w ?s))"
    "tbl \<noteq> [] \<longrightarrow> set bs \<subseteq> snd ` set tbl"
    "errNormSqr st1 = errNormSqr ?s
       + sum_sq (map2 (\<lambda>b p. weighted_term D rk b (err p (optimalPose (result ?s)))) bs ps)"
    "var_g st1 = sum_g (var_g ?s)
       (map2 (\<lambda>b p. weighted_term D rk b (err p (optimalPose (result ?s)))) bs ps)"
    "var_H st1 = sum_H (var_H ?s)
       (map2 (\<lambda>b p. weighted_term D rk b (err p (optimalPose (result ?s)))) bs ps)"
    by blast
  note fr = get_point_weight_frame [OF s] get_point_weight_base [OF s]
  show ?case
  proof (intro exI [of _ "pt2pt (var_w s) # bs"] conjI)
    show "length (pt2pt (var_w s) # bs) = length (p # ps)" using bs(1) by simp
    show "tbl = [] \<longrightarrow> pt2pt (var_w s) # bs = replicate (length (p # ps)) (pt2pt (var_w st))"
      using bs(2) fr by simp
    show "tbl \<noteq> [] \<longrightarrow> set (pt2pt (var_w s) # bs) \<subseteq> snd ` set tbl"
      using bs(3) fr by simp
    show "errNormSqr st1 = errNormSqr st + sum_sq (map2 (\<lambda>b p. weighted_term D rk b
             (err p (optimalPose (result st)))) (pt2pt (var_w s) # bs) (p # ps))"
      using bs(4) fr(1,4) by (simp add: accumulate_term_weighted)
    show "var_g st1 = sum_g (var_g st) (map2 (\<lambda>b p. weighted_term D rk b
             (err p (optimalPose (result st)))) (pt2pt (var_w s) # bs) (p # ps))"
      using bs(5) fr(1,2) by (simp add: accumulate_term_weighted)
    show "var_H st1 = sum_H (var_H st) (map2 (\<lambda>b p. weighted_term D rk b
             (err p (optimalPose (result st)))) (pt2pt (var_w s) # bs) (p # ps))"
      using bs(6) fr(1,3) by (simp add: accumulate_term_weighted)
  qed
qed

lemma accumulate_sums:
  assumes "accumulate env inp rk st = Inr st1"
  shows "\<exists>bs. length bs = length (paired_pt2pt inp)
     \<and> (point_weights inp = [] \<longrightarrow> bs = replicate (length (paired_pt2pt inp)) (pt2pt (var_w st)))
     \<and> (point_weights inp \<noteq> [] \<longrightarrow> set bs \<subseteq> snd ` set (point_weights inp))
     \<and> errNormSqr st1 = sum_sq (iteration_terms env inp rk (optimalPose (result st)) (var_w st) bs)
     \<and> var_g st1 = sum_g (var_g st) (iteration_terms env inp rk (optimalPose (result st)) (var_w st) bs)
     \<and> var_H st1 = sum_H (var_H st) (iteration_terms env inp rk (optimalPose (result st)) (var_w st) bs)"
proof -
  let ?D = "jacob_dDexpe_de env (optimalPose (result st))"
  let ?s0 = "st\<lparr>errNormSqr := 0\<rparr>"
  from assms obtain s1 where
    s1: "pt2pt_loop (error_point2point env) (point_weights inp) ?D rk 0 (paired_pt2pt inp) ?s0 = Inr s1"
    and st1: "st1 = kind_loop (error_plane2plane env) pl2pl ?D rk (paired_pl2pl inp)
                (kind_loop (error_point2plane env) pt2pl ?D rk (paired_pt2pl inp)
                (kind_loop (error_line2line env) ln2ln ?D rk (paired_ln2ln inp)
                (kind_loop (error_point2line env) pt2ln ?D rk (paired_pt2ln inp) s1)))"
    by (auto simp: accumulate_def Let_def split: sum.splits)
  from pt2pt_loop_sums [OF s1] obtain bs where bs: "length bs = length (paired_pt2pt inp)"
    "point_weights inp = [] \<longrightarrow> bs = replicate (length (paired_pt2pt inp)) (pt2pt (var_w st))"
    "point_weights inp \<noteq> [] \<longrightarrow> set bs \<subseteq> snd ` set (point_weights inp)"
    "errNormSqr s1 = sum_sq (map2 (\<lambda>b p. weighted_term ?D rk b
        (error_point2point env p (optimalPose (result st)))) bs (paired_pt2pt inp))"
    "var_g s1 = sum_g (var_g st) (map2 (\<lambda>b p. weighted_term ?D rk b
        (error_point2point env p (optimalPose (result st)))) bs (paired_pt2pt inp))"
    "var_H s1 = sum_H (var_H st) (map2 (\<lambda>b p. weighted_term ?D rk b
        (error_point2point env p (optimalPose (result st)))) bs (paired_pt2pt inp))"
    by auto
  from pt2pt_loop_frame [OF s1] have fr: "result s1 = result st"
    "pt2ln (var_w s1) = pt2ln (var_w st)" "pt2pl (var_w s1) = pt2pl (var_w st)"
    "pl2pl (var_w s1) = pl2pl (var_w st)" "ln2ln (var_w s1) = ln2ln (var_w st)"
    by simp_all
  have "errNormSqr st1 = sum_sq (iteration_terms env inp rk (optimalPose (result st)) (var_w st) bs)"
    unfolding st1 by (simp add: kind_loop_sums fr bs(4) iteration_terms_def Let_def)
  moreover have "var_g st1 = sum_g (var_g st) (iteration_terms env inp rk (optimalPose (result st)) (var_w st) bs)"
    unfolding st1 by (simp add: kind_loop_sums fr bs(5) iteration_terms_def Let_def)
  moreover have "var_H st1 = sum_H (var_H st) (iteration_terms env inp rk (optimalPose (result st)) (var_w st) bs)"
    unfolding st1 by (simp add: kind_loop_sums fr bs(6) iteration_terms_def Let_def)
  ultimately show ?thesis using bs(1-3) by blast
qed


subsection \<open>Zero residuals\<close>

lemma squaredNorm_smult_zero:
  "list_all (\<lambda>x. x = 0) v \<Longrightarrow> squaredNorm (smult_vec k v) = 0"
  by (induction v) (simp_all add: squaredNorm_def dot_def smult_vec_def)

lemma accumulate_term_zero:
  "zero_residual rJ \<Longrightarrow> errNormSqr (accumulate_term D rk b rJ st) = errNormSqr st"
  by (simp add: accumulate_term_def Let_def zero_residual_def squaredNorm_smult_zero)

lemma kind_loop_zero:
  "list_all (\<lambda>p. zero_residual (err p (optimalPose (result st)))) ps
    \<Longrightarrow> errNormSqr (kind_loop err sel D rk ps st) = errNormSqr st"
proof (induction ps arbitrary: st)
  case Nil
  show ?case by simp
next
  case (Cons p ps)
  let ?s = "accumulate_term D rk (sel (var_w st)) (err p (optimalPose (result st))) st"
  from Cons.prems have "list_all (\<lambda>p. zero_residual (err p (optimalPose (result ?s)))) ps"
    by simp
  from Cons.IH [OF this] Cons.prems show ?case
    by (simp add: kind_loop_Cons accumulate_term_zero)
qed

lemma pt2pt_loop_zero:
  assumes "pt2pt_loop err tbl D rk idx ps st = Inr st1"
    and "list_all (\<lambda>p. zero_residual (err p (optimalPose (result st)))) ps"
  shows "errNormSqr st1 = errNormSqr st"
  using assms
proof (induction ps arbitrary: idx st)
  case Nil
  then show ?case by simp
next
  case (Cons p ps)
  from Cons.prems(1) obtain s where s: "get_point_weight tbl idx st = Inr s"
    by (cases "get_point_weight tbl idx st") auto
  note fr = get_point_weight_frame(1,4) [OF s]
  let ?s = "accumulate_term D rk (pt2pt (var_w s)) (err p (optimalPose (result s))) s"
  from Cons.prems(1) s have run: "pt2pt_loop err tbl D rk (Suc idx) ps ?s = Inr st1" by simp
  from Cons.prems(2) fr have "list_all (\<lambda>p. zero_residual (err p (optimalPose (result ?s)))) ps"
    by simp
  from Cons.IH [OF run this] Cons.prems(2) fr show ?case
    by (simp add: accumulate_term_zero)
qed

lemma accumulate_zero:
  assumes "accumulate env inp rk st = Inr st1"
    and "all_residuals_zero env inp (optimalPose (result st))"
  shows "errNormSqr st1 = 0"
proof -
  let ?D = "jacob_dDexpe_de env (optimalPose (result st))"
  let ?s0 = "st\<lparr>errNormSqr := 0\<rparr>"
  from assms(1) obtain s1 where
    s1: "pt2pt_loop (error_point2point env) (point_weights inp) ?D rk 0 (paired_pt2pt inp) ?s0 = Inr s1"
    and st1: "st1 = kind_loop (error_plane2plane env) pl2pl ?D rk (paired_pl2pl inp)
                (kind_loop (error_point2plane env) pt2pl ?D rk (paired_pt2pl inp)
                (kind_loop (error_line2line env) ln2ln ?D rk (paired_ln2ln inp)
                (kind_loop (error_point2line env) pt2ln ?D rk (paired_pt2ln inp) s1)))"
    by (auto simp: accumulate_def Let_def split: sum.splits)
  from pt2pt_loop_frame [OF s1] have fr: "result s1 = result st" by simp
  from assms(2) have "errNormSqr s1 = 0"
    using pt2pt_loop_zero [OF s1] by (simp add: all_residuals_zero_def)
  with assms(2) fr show ?thesis
    unfolding st1 by (simp add: kind_loop_zero all_residuals_zero_def)
qed

subsection \<open>The pose across the outer loop\<close>

lemma gn_iteration_result:
  "(gn_iteration env inp P rk st = BreakCost s \<longrightarrow> result s = result st)
 \<and> (gn_iteration env inp P rk st = BreakDelta s \<or> gn_iteration env inp P rk st = Next s \<longrightarrow>
      (\<exists>d. result s = (result st)\<lparr>optimalPose := pose_compose env (optimalPose (result st)) (SE3_exp env d)\<rparr>))"
proof (cases "accumulate env inp rk st")
  case (Inl a)
  then show ?thesis by (simp add: gn_iteration_def)
next
  case (Inr s1)
  from accumulate_frame [OF this] have "result s1 = result st" .
  with Inr show ?thesis
    by (auto simp: gn_iteration_def Let_def split: if_splits)
qed

lemma gn_loop_result:
  "\<exists>ds. length ds \<le> n \<and>
     result (snd (gn_loop env inp P rk n st)) =
       (result st)\<lparr>optimalPose := compose_all env (optimalPose (result st)) ds\<rparr>"
proof (induction n arbitrary: st)
  case 0
  have "length ([] :: vec list) \<le> 0 \<and> result (snd (gn_loop env inp P rk 0 st)) =
       (result st)\<lparr>optimalPose := compose_all env (optimalPose (result st)) []\<rparr>"
    by (simp add: compose_all_def)
  then show ?case by blast
next
  case (Suc n)
  show ?case
  proof (cases "gn_iteration env inp P rk st")
    case (Abort a)
    then have "length ([] :: vec list) \<le> Suc n \<and> result (snd (gn_loop env inp P rk (Suc n) st)) =
       (result st)\<lparr>optimalPose := compose_all env (optimalPose (result st)) []\<rparr>"
      by (simp add: compose_all_def)
    then show ?thesis by blast
  next
    case (BreakCost s)
    with gn_iteration_result [of env inp P rk st s]
    have "length ([] :: vec list) \<le> Suc n \<and> result (snd (gn_loop env inp P rk (Suc n) st)) =
       (result st)\<lparr>optimalPose := compose_all env (optimalPose (result st)) []\<rparr>"
      by (simp add: compose_all_def)
    then show ?thesis by blast
  next
    case (BreakDelta s)
    with gn_iteration_result [of env inp P rk st s] obtain d where
      "result s = (result st)\<lparr>optimalPose := pose_compose env (optimalPose (result st)) (SE3_exp env d)\<rparr>"
      by auto
    with BreakDelta
    have "length [d] \<le> Suc n \<and> result (snd (gn_loop env inp P rk (Suc n) st)) =
       (result st)\<lparr>optimalPose := compose_all env (optimalPose (result st)) [d]\<rparr>"
      by (simp add: compose_all_def)
    then show ?thesis by blast
  next
    case (Next s)
    with gn_iteration_result [of env inp P rk st s] obtain d where
      d: "result s = (result st)\<lparr>optimalPose := pose_compose env (optimalPose (result st)) (SE3_exp env d)\<rparr>"
      by auto
    from Suc.IH [of s] obtain ds where ds: "length ds \<le> n"
      "result (snd (gn_loop env inp P rk n s)) =
         (result s)\<lparr>optimalPose := compose_all env (optimalPose (result s)) ds\<rparr>"
      by blast
    with Next d
    have "length (d # ds) \<le> Suc n \<and> result (snd (gn_loop env inp P rk (Suc n) st)) =
       (result st)\<lparr>optimalPose := compose_all env (optimalPose (result st)) (d # ds)\<rparr>"
      by (simp add: compose_all_def)
    then show ?thesis by blast
  qed
qed

lemma vec_neg_mat_vec:
  "mat_vec A (vec_neg v) = vec_neg (mat_vec A v)"
proof -
  have "dot r (vec_neg v) = - dot r v" for r
    unfolding dot_def vec_neg_def
    by (induction r v rule: list_induct2') simp_all
  then show ?thesis by (simp add: mat_vec_def vec_neg_def)
qed


subsection \<open>The first pass over the block table\<close>

lemma block_weight_in_block:
  "c < length tbl \<Longrightarrow> sum_list (map fst (take c tbl)) \<le> i
    \<Longrightarrow> i < sum_list (map fst (take c tbl)) + fst (tbl ! c)
    \<Longrightarrow> block_weight tbl i = Some (snd (tbl ! c))"
proof (induction tbl arbitrary: c i)
  case Nil
  then show ?case by simp
next
  case (Cons b bs)
  show ?case
  proof (cases c)
    case 0
    with Cons.prems show ?thesis by simp
  next
    case (Suc c')
    with Cons.prems have "c' < length bs" "sum_list (map fst (take c' bs)) \<le> i - fst b"
      "i - fst b < sum_list (map fst (take c' bs)) + fst (bs ! c')" "\<not> i < fst b"
      by auto
    with Cons.IH [of c' "i - fst b"] Suc show ?thesis by simp
  qed
qed

lemma cursor_at_accumulate_term [simp]:
  "cursor_at tbl idx (accumulate_term D rk b rJ st) = cursor_at tbl idx st"
  by (simp add: cursor_at_def)

lemma get_point_weight_first_pass:
  assumes at: "cursor_at tbl idx st" and pos: "list_all (\<lambda>b. 0 < fst b) tbl"
    and idx: "idx < sum_list (map fst tbl)" and fit: "sum_list (map fst tbl) < size_t_modulus"
  shows "\<exists>st1. get_point_weight tbl idx st = Inr st1
           \<and> block_weight tbl idx = Some (pt2pt (var_w st1))
           \<and> cursor_at tbl (Suc idx) st1"
proof -
  let ?c = "cur_point_block_weights st"
  let ?s = "cur_point_block_start st"
  from at have c: "?c < length tbl" and s: "?s = sum_list (map fst (take ?c tbl))"
    and lo: "?s \<le> idx" and hi: "idx \<le> ?s + fst (tbl ! ?c)"
    by (simp_all add: cursor_at_def)
  from c have ne: "tbl \<noteq> []" by auto
  have "sum_list (map fst (take (Suc ?c) tbl)) \<le> sum_list (map fst tbl)"
    using sum_list_append [of "map fst (take (Suc ?c) tbl)" "map fst (drop (Suc ?c) tbl)"]
    by (simp flip: map_append)
  with s sum_list_take_Suc [OF c] fit
  have nowrap: "(?s + fst (tbl ! ?c)) mod size_t_modulus = ?s + fst (tbl ! ?c)"
    by simp
  show ?thesis
  proof (cases "?s + fst (tbl ! ?c) \<le> idx")
    case False
    then have "block_weight tbl idx = Some (snd (tbl ! ?c))"
      using block_weight_in_block [OF c, of idx] s lo by simp
    with False c ne s lo nowrap show ?thesis
      by (simp add: get_point_weight_def cursor_at_def)
  next
    case True
    with hi have eq: "idx = ?s + fst (tbl ! ?c)" by simp
    with s sum_list_take_Suc [OF c] have pre: "sum_list (map fst (take (Suc ?c) tbl)) = idx"
      by simp
    have c': "Suc ?c < length tbl"
    proof (rule ccontr)
      assume "\<not> Suc ?c < length tbl"
      with c have "take (Suc ?c) tbl = tbl" by simp
      with pre idx show False by simp
    qed
    from pos c' have len: "0 < fst (tbl ! Suc ?c)"
      by (simp add: list_all_length)
    from block_weight_in_block [OF c', of idx] pre len
    have "block_weight tbl idx = Some (snd (tbl ! Suc ?c))" by simp
    with True c c' ne pre len nowrap show ?thesis
      by (simp add: get_point_weight_def cursor_at_def Let_def)
  qed
qed

lemma pt2pt_loop_first_pass:
  assumes "cursor_at tbl idx st" and "list_all (\<lambda>b. 0 < fst b) tbl"
    and "idx + length ps \<le> sum_list (map fst tbl)"
    and "sum_list (map fst tbl) < size_t_modulus"
  shows "\<exists>st1. pt2pt_loop err tbl D rk idx ps st = Inr st1
     \<and> errNormSqr st1 = errNormSqr st + sum_sq (map2 (\<lambda>b p. weighted_term D rk b
          (err p (optimalPose (result st))))
          (map (\<lambda>i. the (block_weight tbl i)) [idx..<idx + length ps]) ps)
     \<and> var_g st1 = sum_g (var_g st) (map2 (\<lambda>b p. weighted_term D rk b
          (err p (optimalPose (result st))))
          (map (\<lambda>i. the (block_weight tbl i)) [idx..<idx + length ps]) ps)
     \<and> var_H st1 = sum_H (var_H st) (map2 (\<lambda>b p. weighted_term D rk b
          (err p (optimalPose (result st))))
          (map (\<lambda>i. the (block_weight tbl i)) [idx..<idx + length ps]) ps)"
  using assms
proof (induction ps arbitrary: idx st)
  case Nil
  then show ?case by simp
next
  case (Cons p ps)
  from Cons.prems have "idx < sum_list (map fst tbl)" by simp
  from get_point_weight_first_pass [OF Cons.prems(1,2) this Cons.prems(4)]
  obtain s where s: "get_point_weight tbl idx st = Inr s"
    and w: "block_weight tbl idx = Some (pt2pt (var_w s))"
    and at: "cursor_at tbl (Suc idx) s" by blast
  let ?s = "accumulate_term D rk (pt2pt (var_w s)) (err p (optimalPose (result s))) s"
  note fr = get_point_weight_frame(1-4) [OF s]
  from at have "cursor_at tbl (Suc idx) ?s" by simp
  moreover from Cons.prems have "Suc idx + length ps \<le> sum_list (map fst tbl)" by simp
  ultimately obtain st1 where run: "pt2pt_loop err tbl D rk (Suc idx) ps ?s = Inr st1"
    and sums:
      "errNormSqr st1 = errNormSqr ?s + sum_sq (map2 (\<lambda>b p. weighted_term D rk b
          (err p (optimalPose (result ?s))))
          (map (\<lambda>i. the (block_weight tbl i)) [Suc idx..<Suc idx + length ps]) ps)"
      "var_g st1 = sum_g (var_g ?s) (map2 (\<lambda>b p. weighted_term D rk b
          (err p (optimalPose (result ?s))))
          (map (\<lambda>i. the (block_weight tbl i)) [Suc idx..<Suc idx + length ps]) ps)"
      "var_H st1 = sum_H (var_H ?s) (map2 (\<lambda>b p. weighted_term D rk b
          (err p (optimalPose (result ?s))))
          (map (\<lambda>i. the (block_weight tbl i)) [Suc idx..<Suc idx + length ps]) ps)"
    using Cons.IH [of "Suc idx" ?s] Cons.prems(2,4) by blast
  have "idx < idx + length (p # ps)" by simp
  then have "[idx..<idx + length (p # ps)] = idx # [Suc idx..<idx + length (p # ps)]"
    by (rule upt_conv_Cons)
  then have upt: "[idx..<idx + length (p # ps)] = idx # [Suc idx..<Suc idx + length ps]"
    by simp
  from s run sums fr w show ?case
    unfolding upt by (simp add: accumulate_term_weighted)
qed

text \<open>
  In the first iteration, with a table whose blocks are non-empty and cover the
  point-to-point sequence (and whose lengths add up to less than \<open>2 ^ 64\<close>), the base
  weights are those of the table.
\<close>

lemma first_iteration_block_weights:
  assumes ne: "point_weights inp \<noteq> []"
    and pos: "list_all (\<lambda>b. 0 < fst b) (point_weights inp)"
    and cov: "length (paired_pt2pt inp) \<le> sum_list (map fst (point_weights inp))"
    and fit: "sum_list (map fst (point_weights inp)) < size_t_modulus"
  shows "\<exists>st1. accumulate env inp rk (initial_locals res P p) = Inr st1
     \<and> errNormSqr st1 = sum_sq (iteration_terms env inp rk p (pairWeights P)
          (map (\<lambda>i. the (block_weight (point_weights inp) i)) [0..<length (paired_pt2pt inp)]))
     \<and> var_g st1 = sum_g (zero_vec 6) (iteration_terms env inp rk p (pairWeights P)
          (map (\<lambda>i. the (block_weight (point_weights inp) i)) [0..<length (paired_pt2pt inp)]))
     \<and> var_H st1 = sum_H (zero_mat 6 6) (iteration_terms env inp rk p (pairWeights P)
          (map (\<lambda>i. the (block_weight (point_weights inp) i)) [0..<length (paired_pt2pt inp)]))"
proof -
  let ?st = "initial_locals res P p"
  let ?D = "jacob_dDexpe_de env p"
  let ?bs = "map (\<lambda>i. the (block_weight (point_weights inp) i)) [0..<length (paired_pt2pt inp)]"
  from ne have at: "cursor_at (point_weights inp) 0 (?st\<lparr>errNormSqr := 0\<rparr>)"
    by (simp add: cursor_at_def initial_locals_def)
  from cov have "0 + length (paired_pt2pt inp) \<le> sum_list (map fst (point_weights inp))" by simp
  from pt2pt_loop_first_pass [OF at pos this fit, of "error_point2point env" ?D rk]
  obtain s1 where
    s1: "pt2pt_loop (error_point2point env) (point_weights inp) ?D rk 0 (paired_pt2pt inp)
           (?st\<lparr>errNormSqr := 0\<rparr>) = Inr s1"
    and sums: "errNormSqr s1 = sum_sq (map2 (\<lambda>b q. weighted_term ?D rk b
          (error_point2point env q p)) ?bs (paired_pt2pt inp))"
      "var_g s1 = sum_g (zero_vec 6) (map2 (\<lambda>b q. weighted_term ?D rk b
          (error_point2point env q p)) ?bs (paired_pt2pt inp))"
      "var_H s1 = sum_H (zero_mat 6 6) (map2 (\<lambda>b q. weighted_term ?D rk b
          (error_point2point env q p)) ?bs (paired_pt2pt inp))"
    by (auto simp: initial_locals_def)
  from pt2pt_loop_frame [OF s1] have fr: "result s1 = (res\<lparr>optimalPose := p\<rparr>)"
    "pt2ln (var_w s1) = pt2ln (pairWeights P)" "pt2pl (var_w s1) = pt2pl (pairWeights P)"
    "pl2pl (var_w s1) = pl2pl (pairWeights P)" "ln2ln (var_w s1) = ln2ln (pairWeights P)"
    by (simp_all add: initial_locals_def)
  have r: "optimalPose (result ?st) = p" by (simp add: initial_locals_def)
  from s1 have "accumulate env inp rk ?st =
      Inr (kind_loop (error_plane2plane env) pl2pl ?D rk (paired_pl2pl inp)
          (kind_loop (error_point2plane env) pt2pl ?D rk (paired_pt2pl inp)
          (kind_loop (error_line2line env) ln2ln ?D rk (paired_ln2ln inp)
          (kind_loop (error_point2line env) pt2ln ?D rk (paired_pt2ln inp) s1))))"
    by (simp add: accumulate_def Let_def r)
  then show ?thesis
    by (simp add: kind_loop_sums fr sums iteration_terms_def Let_def)
qed


subsection \<open>The assertion on the block cursor\<close>

text \<open>
  Whatever the input, the call never ends by the assertion of line 80: the iterator has
  been dereferenced by the condition of line 77 before the assertion compares it with
  \<open>end()\<close>.
\<close>

lemma optimal_tf_never_asserts_cursor:
  "fst (optimal_tf_gauss_newton env inp res P) \<noteq> Inl Assert_point_weights_end"
proof (cases "linearizationPoint P")
  case None
  then show ?thesis by (simp add: optimal_tf_gauss_newton_def)
next
  case (Some p)
  let ?fin = "gn_loop env inp P (create_robust_kernel env (kernel P) (kernelParam P))
                (maxInnerLoopIterations P) (initial_locals res P p)"
  have "fst ?fin \<noteq> Aborted Assert_point_weights_end" by (rule gn_loop_no_assert)
  then show ?thesis
    by (cases "fst ?fin") (auto simp: optimal_tf_gauss_newton_def Some Let_def)
qed

section \<open>Evaluation on concrete inputs\<close>

lemma vec_eval [simp]:
  "vec_neg [] = []" "vec_neg (x # xs) = (- x) # vec_neg xs"
  "vec_add [] b = []" "vec_add a [] = []" "vec_add (x # xs) (y # ys) = (x + y) # vec_add xs ys"
  "dot [] b = 0" "dot a [] = 0" "dot (x # xs) (y # ys) = x * y + dot xs ys"
  by (simp_all add: vec_neg_def vec_add_def dot_def)

lemma tr_locals_sel [simp]:
  "result (tr_locals x gv Hm wp c s e) = \<lparr> optimalPose = x \<rparr>"
  "var_g (tr_locals x gv Hm wp c s e) = gv"
  "var_H (tr_locals x gv Hm wp c s e) = Hm"
  "pt2pt (var_w (tr_locals x gv Hm wp c s e)) = wp"
  "cur_point_block_weights (tr_locals x gv Hm wp c s e) = c"
  "cur_point_block_start (tr_locals x gv Hm wp c s e) = s"
  "errNormSqr (tr_locals x gv Hm wp c s e) = e"
  by (simp_all add: tr_locals_def)

lemma c1_accumulate_1:
  "accumulate tr_env (tr_pairings opposed_points []) None
     (tr_locals [1,0,0] [0,0,0,0,0,0] (zero_mat 6 6) 1 0 0 0) =
   Inr (tr_locals [1,0,0] [2,0,0,0,0,0] (diag6 2) 1 0 0 4)"
  by code_simp

lemma c1_accumulate_2:
  "accumulate tr_env (tr_pairings opposed_points []) None
     (tr_locals [0,0,0] [2,0,0,0,0,0] (diag6 2) 1 0 0 4) =
   Inr (tr_locals [0,0,0] [2,0,0,0,0,0] (diag6 4) 1 0 0 2)"
  by code_simp

lemma c1_iteration_1:
  "gn_iteration tr_env (tr_pairings opposed_points []) (tr_params (Some [1,0,0]) 2) None
     (tr_locals [1,0,0] [0,0,0,0,0,0] (zero_mat 6 6) 1 0 0 0) =
   Next (tr_locals [0,0,0] [2,0,0,0,0,0] (diag6 2) 1 0 0 4)"
  unfolding gn_iteration_def c1_accumulate_1
  by (simp add: tr_locals_def tr_params_def tr_env_def diag6_def norm_vec_def squaredNorm_def)

lemma c1_iteration_2:
  "gn_iteration tr_env (tr_pairings opposed_points []) (tr_params (Some [1,0,0]) 2) None
     (tr_locals [0,0,0] [2,0,0,0,0,0] (diag6 2) 1 0 0 4) =
   Next (tr_locals [-1/2,0,0] [2,0,0,0,0,0] (diag6 4) 1 0 0 2)"
  unfolding gn_iteration_def c1_accumulate_2
  by (simp add: tr_locals_def tr_params_def tr_env_def diag6_def norm_vec_def squaredNorm_def)

lemma c1_fresh_sum:
  "sum_g (zero_vec 6) (iteration_terms tr_env (tr_pairings opposed_points []) None [0,0,0]
      unit_weights [1,1]) = [0,0,0,0,0,0]"
  by code_simp

lemma tr_params_sel [simp]:
  "linearizationPoint (tr_params lp n) = lp"
  "maxInnerLoopIterations (tr_params lp n) = n"
  "maxCost (tr_params lp n) = 0"
  "minDelta (tr_params lp n) = 0"
  "create_robust_kernel tr_env (kernel (tr_params lp n)) (kernelParam (tr_params lp n)) = None"
  by (simp_all add: tr_params_def tr_env_def)

lemma tr_initial:
  "initial_locals res_origin (tr_params lp n) x =
     tr_locals x [0,0,0,0,0,0] (zero_mat 6 6) 1 0 0 0"
  by (simp add: initial_locals_def tr_locals_def res_origin_def tr_params_def unit_weights_def
      zero_vec_def numeral_eq_Suc)

lemma tr_solve_step:
  "colPivHouseholderQr_solve tr_env (diag6 a) [b,0,0,0,0,0] = [if a = 0 then 0 else b / a,0,0,0,0,0]"
  "SE3_exp tr_env [d,0,0,0,0,0] = [d,0,0]"
  "pose_compose tr_env [x,0,0] [d,0,0] = [x + d,0,0]"
  by (simp_all add: tr_env_def diag6_def)

lemma tr_iteration_next:
  assumes "accumulate tr_env inp None st = Inr (tr_locals [x,0,0] [b,0,0,0,0,0] (diag6 a) wp c s e)"
    and "0 < e" and "a \<noteq> 0"
  shows "gn_iteration tr_env inp (tr_params lp n) None st =
           Next (tr_locals [x - b / a,0,0] [b,0,0,0,0,0] (diag6 a) wp c s e)"
  using assms(2,3) unfolding gn_iteration_def assms(1)
  by (simp add: tr_solve_step Let_def norm_vec_def squaredNorm_def not_less tr_locals_def)

lemma gn_loop_1:
  "gn_loop env inp P rk 1 st =
     (case gn_iteration env inp P rk st of
        Abort a \<Rightarrow> (Aborted a, st)
      | BreakCost s \<Rightarrow> (ExitCost, s)
      | BreakDelta s \<Rightarrow> (ExitDelta, s)
      | Next s \<Rightarrow> (ExitBudget, s))"
  by (simp add: One_nat_def split: iteration_end.splits)

lemma gn_loop_2:
  "gn_loop env inp P rk 2 st =
     (case gn_iteration env inp P rk st of
        Abort a \<Rightarrow> (Aborted a, st)
      | BreakCost s \<Rightarrow> (ExitCost, s)
      | BreakDelta s \<Rightarrow> (ExitDelta, s)
      | Next s \<Rightarrow> gn_loop env inp P rk 1 s)"
  by (simp add: numeral_2_eq_2 split: iteration_end.splits)

lemma c2_accumulate_1:
  "accumulate tr_env (tr_pairings opposed_points two_blocks) None
     (tr_locals [1,0,0] [0,0,0,0,0,0] (zero_mat 6 6) 1 0 0 0) =
   Inr (tr_locals [1,0,0] [8,0,0,0,0,0] (diag6 5) 2 1 1 16)"
  by code_simp

lemma c2_accumulate_2:
  "accumulate tr_env (tr_pairings opposed_points two_blocks) None
     (tr_locals [- (3/5),0,0] [8,0,0,0,0,0] (diag6 5) 2 1 1 16) =
   Inr (tr_locals [- (3/5),0,0] [16/5,0,0,0,0,0] (diag6 13) 2 1 1 (272/25))"
  by code_simp

lemma c2_sums:
  "sum_sq (iteration_terms tr_env (tr_pairings opposed_points two_blocks) None [- (3/5),0,0]
     unit_weights [2,2]) = 272/25"
  "sum_sq (iteration_terms tr_env (tr_pairings opposed_points two_blocks) None [- (3/5),0,0]
     unit_weights [1,2]) = 16/5"
  by code_simp+

lemma c3_accumulate:
  "accumulate tr_env (tr_pairings opposed_points (one_block 1 5)) None
     (tr_locals [1,0,0] [0,0,0,0,0,0] (zero_mat 6 6) 1 0 0 0) = Inl Undefined_deref_end"
  by code_simp

lemma c8_accumulate:
  "accumulate tr_env (tr_pairings three_points (one_block 2 1)) None
     (tr_locals [1,0,0] [0,0,0,0,0,0] (zero_mat 6 6) 1 0 0 0) = Inl Undefined_deref_end"
  by code_simp

lemma c1_fresh_sum_H:
  "sum_H (zero_mat 6 6) (iteration_terms tr_env (tr_pairings opposed_points []) None [0,0,0]
      unit_weights [1,1]) = diag6 2"
  by code_simp

lemma opposed_call:
  "optimal_tf_gauss_newton tr_env (tr_pairings opposed_points []) res_origin
     (tr_params (Some [1,0,0]) 2) = (Inr True, \<lparr> optimalPose = [- (1/2),0,0] \<rparr>)"
  by (simp add: optimal_tf_gauss_newton_def tr_initial gn_loop_1 gn_loop_2
      c1_iteration_1 c1_iteration_2)

section \<open>The properties C1 to C10 of the specification\<close>

text \<open>
  C1.  Claimed: in every iteration the gradient \<open>g\<close> and the matrix \<open>H\<close> handed to the
  linear solve are the sums of the contributions \<open>J\<^sup>T e\<close> and \<open>J\<^sup>T J\<close> of that iteration alone,
  evaluated at the current pose, the accumulators starting from zero each iteration.

  The source declares \<open>g\<close> and \<open>H\<close> before the outer loop (lines 48 and 49) and never
  resets them; only \<open>errNormSqr\<close> is reset (line 63).  By \<open>accumulate_sums\<close> an iteration
  adds its terms to whatever the previous iteration left.  Two pairings of the origin
  with the points \<open>(1,0,0)\<close> and \<open>(-1,0,0)\<close>, started at the translation \<open>(1,0,0)\<close>, two
  iterations allowed: the first iteration moves the pose to the optimum \<open>(0,0,0)\<close>; there
  the contributions of the second iteration add up to the zero gradient and to
  \<open>diag6 2\<close>, but the accumulators hold \<open>(2,0,0,0,0,0)\<close> and \<open>diag6 4\<close>, and the call returns
  the pose \<open>(-1/2,0,0)\<close>.
\<close>

theorem c1_accumulators_carry_over:
  "gn_iteration tr_env (tr_pairings opposed_points []) (tr_params (Some [1,0,0]) 2) None
     (initial_locals res_origin (tr_params (Some [1,0,0]) 2) [1,0,0])
     = Next (tr_locals [0,0,0] [2,0,0,0,0,0] (diag6 2) 1 0 0 4)
   \<and> accumulate tr_env (tr_pairings opposed_points []) None
        (tr_locals [0,0,0] [2,0,0,0,0,0] (diag6 2) 1 0 0 4)
     = Inr (tr_locals [0,0,0] [2,0,0,0,0,0] (diag6 4) 1 0 0 2)
   \<and> sum_g (zero_vec 6) (iteration_terms tr_env (tr_pairings opposed_points []) None [0,0,0]
        unit_weights [1,1]) = [0,0,0,0,0,0]
   \<and> sum_H (zero_mat 6 6) (iteration_terms tr_env (tr_pairings opposed_points []) None [0,0,0]
        unit_weights [1,1]) = diag6 2
   \<and> optimal_tf_gauss_newton tr_env (tr_pairings opposed_points []) res_origin
        (tr_params (Some [1,0,0]) 2) = (Inr True, \<lparr> optimalPose = [- (1/2),0,0] \<rparr>)"
  by (simp only: tr_initial c1_iteration_1 c1_accumulate_2 c1_fresh_sum c1_fresh_sum_H
      opposed_call simp_thms)

text \<open>
  C2.  Claimed: with a non-empty block table whose lengths sum to the number of
  point-to-point correspondences, in every iteration the base weight of the
  correspondence at index \<open>i\<close> is the weight of the block whose cumulative-length range
  contains \<open>i\<close>, the same in every iteration.

  The cursor \<open>cur_point_block_weights\<close> and \<open>cur_point_block_start\<close> are set before the
  outer loop (lines 54 and 55) and are not rewound when an iteration starts.  In the first
  iteration the weights are those of the table (\<open>first_iteration_block_weights\<close>, for
  blocks of positive length).  Two blocks of length 1 with weights 1 and 2 over two
  correspondences: after the first iteration the cursor stands on the second block, and
  in the second iteration index 0 gets the weight 2 where the table says 1; the
  iteration accumulates the squared error \<open>272/25\<close> of the weights \<open>2, 2\<close>, not the \<open>16/5\<close>
  of the weights \<open>1, 2\<close>.
\<close>

theorem c2_block_cursor_not_rewound:
  "sum_list (map fst two_blocks) = length opposed_points
   \<and> gn_iteration tr_env (tr_pairings opposed_points two_blocks) (tr_params (Some [1,0,0]) 2) None
       (initial_locals res_origin (tr_params (Some [1,0,0]) 2) [1,0,0])
     = Next (tr_locals [- (3/5),0,0] [8,0,0,0,0,0] (diag6 5) 2 1 1 16)
   \<and> get_point_weight two_blocks 0 (tr_locals [- (3/5),0,0] [8,0,0,0,0,0] (diag6 5) 2 1 1 0)
     = Inr (tr_locals [- (3/5),0,0] [8,0,0,0,0,0] (diag6 5) 2 1 1 0)
   \<and> block_weight two_blocks 0 = Some 1
   \<and> accumulate tr_env (tr_pairings opposed_points two_blocks) None
        (tr_locals [- (3/5),0,0] [8,0,0,0,0,0] (diag6 5) 2 1 1 16)
     = Inr (tr_locals [- (3/5),0,0] [16/5,0,0,0,0,0] (diag6 13) 2 1 1 (272/25))
   \<and> sum_sq (iteration_terms tr_env (tr_pairings opposed_points two_blocks) None [- (3/5),0,0]
        unit_weights [2,2]) = 272/25
   \<and> sum_sq (iteration_terms tr_env (tr_pairings opposed_points two_blocks) None [- (3/5),0,0]
        unit_weights [1,2]) = 16/5"
proof -
  have "gn_iteration tr_env (tr_pairings opposed_points two_blocks) (tr_params (Some [1,0,0]) 2) None
       (tr_locals [1,0,0] [0,0,0,0,0,0] (zero_mat 6 6) 1 0 0 0)
     = Next (tr_locals [1 - 8 / 5,0,0] [8,0,0,0,0,0] (diag6 5) 2 1 1 16)"
    by (rule tr_iteration_next [OF c2_accumulate_1]) simp_all
  moreover have "get_point_weight two_blocks 0 (tr_locals [- (3/5),0,0] [8,0,0,0,0,0] (diag6 5) 2 1 1 0)
     = Inr (tr_locals [- (3/5),0,0] [8,0,0,0,0,0] (diag6 5) 2 1 1 0)"
    by (simp add: get_point_weight_def tr_locals_def two_blocks_def size_t_modulus_def)
  moreover have "sum_list (map fst two_blocks) = length opposed_points"
    by (simp add: opposed_points_def two_blocks_def)
  moreover have "block_weight two_blocks 0 = Some 1"
    by (simp add: two_blocks_def)
  ultimately show ?thesis
    by (simp del: One_nat_def add: tr_initial c2_accumulate_2 c2_sums)
qed

text \<open>
  C3.  Claimed: a non-empty block table whose lengths sum to less than the number of
  point-to-point correspondences makes the call abort with the assertion on the table,
  at the first index that no block covers.

  At that index the condition of line 77 holds, the assertion of line 80 compares the
  iterator with \<open>end()\<close> before the increment and passes, the increment of line 81 makes
  the iterator \<open>end()\<close>, and line 84 reads through it.  One block of length 1 over two
  correspondences: index 0 gets the weight 5, index 1 ends in the undefined read, and so
  does the call; no assertion fails.
\<close>

theorem c3_short_table_is_not_asserted:
  "sum_list (map fst (one_block 1 5)) < length opposed_points
   \<and> get_point_weight (one_block 1 5) 0 (tr_locals [1,0,0] [0,0,0,0,0,0] (zero_mat 6 6) 1 0 0 0)
     = Inr (tr_locals [1,0,0] [0,0,0,0,0,0] (zero_mat 6 6) 5 0 0 0)
   \<and> get_point_weight (one_block 1 5) 1 (tr_locals [1,0,0] [0,0,0,0,0,0] (diag6 25) 5 0 0 0)
     = Inl Undefined_deref_end
   \<and> optimal_tf_gauss_newton tr_env (tr_pairings opposed_points (one_block 1 5)) res_origin
        (tr_params (Some [1,0,0]) 1) = (Inl Undefined_deref_end, \<lparr> optimalPose = [1,0,0] \<rparr>)"
proof -
  have "optimal_tf_gauss_newton tr_env (tr_pairings opposed_points (one_block 1 5)) res_origin
        (tr_params (Some [1,0,0]) 1) = (Inl Undefined_deref_end, \<lparr> optimalPose = [1,0,0] \<rparr>)"
    by (simp del: One_nat_def
        add: optimal_tf_gauss_newton_def tr_initial gn_loop_1 gn_iteration_def c3_accumulate)
  then show ?thesis
    by (simp add: get_point_weight_def tr_locals_def opposed_points_def one_block_def
        size_t_modulus_def)
qed

text \<open>
  C4.  In every iteration whose accumulation \<open>accumulate\<close> succeeds with the locals \<open>st1\<close>:
  the accumulation leaves the result object as it was; if \<open>sqrt (errNormSqr st1)\<close> is at
  most \<open>maxCost\<close> the loop stops there with these locals, before any solve or update;
  otherwise the increment is solved for and composed into the pose, and the loop stops
  with the updated pose if the norm of the increment is strictly below \<open>minDelta\<close>, and
  goes on with the updated pose and one iteration less otherwise; with no iteration
  left the loop exits with the locals it has.
\<close>

theorem c4_convergence_checks:
  assumes "accumulate env inp rk st = Inr st1"
  shows "result st1 = result st
    \<and> gn_loop env inp P rk 0 st = (ExitBudget, st)
    \<and> gn_loop env inp P rk (Suc n) st =
        (if sqrt (errNormSqr st1) \<le> maxCost P then (ExitCost, st1)
         else
           (let delta = vec_neg (colPivHouseholderQr_solve env (var_H st1) (var_g st1));
                st2 = st1\<lparr>result := (result st)
                        \<lparr>optimalPose := pose_compose env (optimalPose (result st))
                                          (SE3_exp env delta)\<rparr>\<rparr>
            in if norm_vec delta < minDelta P then (ExitDelta, st2)
               else gn_loop env inp P rk n st2))"
  using accumulate_frame [OF assms] assms
  by (simp add: gn_iteration_def Let_def)

theorem c4_convergence_checks_witness:
  "accumulate tr_env (tr_pairings opposed_points []) None
     (tr_locals [1,0,0] [0,0,0,0,0,0] (zero_mat 6 6) 1 0 0 0)
     = Inr (tr_locals [1,0,0] [2,0,0,0,0,0] (diag6 2) 1 0 0 4)
   \<and> gn_loop tr_env (tr_pairings opposed_points []) (tr_params (Some [1,0,0]) 2) None (Suc 0)
       (tr_locals [1,0,0] [0,0,0,0,0,0] (zero_mat 6 6) 1 0 0 0)
     = (ExitBudget, tr_locals [0,0,0] [2,0,0,0,0,0] (diag6 2) 1 0 0 4)"
  using c4_convergence_checks [OF c1_accumulate_1, of "tr_params (Some [1,0,0]) 2" 0]
    c1_accumulate_1
  by (simp add: tr_solve_step norm_vec_def squaredNorm_def tr_locals_def)

text \<open>
  C5.  If every supplied correspondence has a zero residual at the linearization point
  \<open>p\<close> (in particular when there is none) and \<open>maxCost\<close> is not negative, then the first
  iteration ends by the cost test, with the pose \<open>p\<close>, and the call returns \<open>true\<close> with the
  result pose \<open>p\<close>.  The block table is taken to be absent or long enough for the
  point-to-point sequence, as the data model requires, with sizes that do not wrap
  the sum of line 78 (\<open>table_covers\<close>).
\<close>

theorem c5_zero_residual_fixed_point:
  assumes lin: "linearizationPoint P = Some p"
    and cov: "table_covers inp"
    and zero: "all_residuals_zero env inp p"
    and cost: "0 \<le> maxCost P"
  shows "optimal_tf_gauss_newton env inp res P = (Inr True, res\<lparr>optimalPose := p\<rparr>)
    \<and> (\<exists>st1. gn_iteration env inp P rk (initial_locals res P p) = BreakCost st1
            \<and> result st1 = res\<lparr>optimalPose := p\<rparr>)"
proof -
  have first: "\<exists>st1. gn_iteration env inp P k (initial_locals res P p) = BreakCost st1
            \<and> result st1 = res\<lparr>optimalPose := p\<rparr>" for k
  proof -
    let ?s0 = "initial_locals res P p"
    have r0: "result ?s0 = res\<lparr>optimalPose := p\<rparr>" by (simp add: initial_locals_def)
    from accumulate_covered [OF cov initial_locals_ok, of env k res P p]
    obtain st1 where st1: "accumulate env inp k ?s0 = Inr st1" by blast
    from zero r0 have "all_residuals_zero env inp (optimalPose (result ?s0))" by simp
    from accumulate_zero [OF st1 this] have "errNormSqr st1 = 0" .
    with st1 cost have "gn_iteration env inp P k ?s0 = BreakCost st1"
      by (simp add: gn_iteration_def)
    moreover from accumulate_frame [OF st1] r0 have "result st1 = res\<lparr>optimalPose := p\<rparr>" by simp
    ultimately show ?thesis by blast
  qed
  let ?k = "create_robust_kernel env (kernel P) (kernelParam P)"
  have "optimal_tf_gauss_newton env inp res P = (Inr True, res\<lparr>optimalPose := p\<rparr>)"
  proof (cases "maxInnerLoopIterations P")
    case 0
    then show ?thesis
      by (simp add: optimal_tf_gauss_newton_def lin initial_locals_def)
  next
    case (Suc n)
    from first [of ?k] obtain st1 where
      "gn_iteration env inp P ?k (initial_locals res P p) = BreakCost st1"
      "result st1 = res\<lparr>optimalPose := p\<rparr>" by blast
    with Suc show ?thesis
      by (simp add: optimal_tf_gauss_newton_def lin)
  qed
  with first [of rk] show ?thesis by blast
qed

theorem c5_zero_residual_fixed_point_witness:
  "linearizationPoint (tr_params (Some [1,0,0]) 2) = Some [1,0,0]
   \<and> table_covers (tr_pairings coincident_points (one_block 2 3))
   \<and> all_residuals_zero tr_env (tr_pairings coincident_points (one_block 2 3)) [1,0,0]
   \<and> 0 \<le> maxCost (tr_params (Some [1,0,0]) 2)
   \<and> optimal_tf_gauss_newton tr_env (tr_pairings coincident_points (one_block 2 3)) res_origin
        (tr_params (Some [1,0,0]) 2) = (Inr True, res_origin\<lparr>optimalPose := [1,0,0]\<rparr>)"
proof -
  have lin: "linearizationPoint (tr_params (Some [1,0,0]) 2) = Some [1,0,0]" by simp
  have cov: "table_covers (tr_pairings coincident_points (one_block 2 3))"
    by (simp add: table_covers_def tr_pairings_def coincident_points_def one_block_def
        size_t_modulus_def)
  have zero: "all_residuals_zero tr_env (tr_pairings coincident_points (one_block 2 3)) [1,0,0]"
    by (simp add: all_residuals_zero_def zero_residual_def tr_pairings_def coincident_points_def
        tr_env_def)
  have cost: "0 \<le> maxCost (tr_params (Some [1,0,0]) 2)" by simp
  from c5_zero_residual_fixed_point [OF lin cov zero cost, where res = res_origin and rk = None]
    lin cov zero cost
  show ?thesis by simp
qed

text \<open>
  C6.  An iteration whose accumulation succeeds has added, for every correspondence, the
  squared norm of \<open>weight * residual\<close> to \<open>errNormSqr\<close> (which started at 0), and
  \<open>J\<^sup>T (weight * residual)\<close> and \<open>J\<^sup>T J\<close> to \<open>g\<close> and \<open>H\<close>, where
  \<open>J = weight * J1 * dDexpe_de\<close>, \<open>weight\<close> is the base weight times the robust multiplier
  of the squared norm of the raw residual (the base weight alone without a kernel), and
  \<open>dDexpe_de\<close> is the one Jacobian of the exponential map at the pose the iteration
  started with.  The base weights of the point-to-point correspondences are the default
  without a table and weights of the table otherwise; those of the other kinds are
  their defaults.
\<close>

theorem c6_weighted_accumulation:
  assumes "accumulate env inp rk st = Inr st1"
  shows "\<exists>bs. length bs = length (paired_pt2pt inp)
     \<and> (point_weights inp = [] \<longrightarrow> bs = replicate (length (paired_pt2pt inp)) (pt2pt (var_w st)))
     \<and> (point_weights inp \<noteq> [] \<longrightarrow> set bs \<subseteq> snd ` set (point_weights inp))
     \<and> errNormSqr st1 = sum_sq (iteration_terms env inp rk (optimalPose (result st)) (var_w st) bs)
     \<and> var_g st1 = sum_g (var_g st) (iteration_terms env inp rk (optimalPose (result st)) (var_w st) bs)
     \<and> var_H st1 = sum_H (var_H st) (iteration_terms env inp rk (optimalPose (result st)) (var_w st) bs)"
  using assms by (rule accumulate_sums)

theorem c6_weighted_accumulation_witness:
  "accumulate tr_env (tr_pairings opposed_points []) None
     (tr_locals [1,0,0] [0,0,0,0,0,0] (zero_mat 6 6) 1 0 0 0)
     = Inr (tr_locals [1,0,0] [2,0,0,0,0,0] (diag6 2) 1 0 0 4)
   \<and> 4 = sum_sq (iteration_terms tr_env (tr_pairings opposed_points []) None [1,0,0]
            (unit_weights\<lparr>pt2pt := 1\<rparr>) [1,1])
   \<and> [2,0,0,0,0,0] = sum_g [0,0,0,0,0,0]
          (iteration_terms tr_env (tr_pairings opposed_points []) None [1,0,0]
             (unit_weights\<lparr>pt2pt := 1\<rparr>) [1,1])
   \<and> diag6 2 = sum_H (zero_mat 6 6)
          (iteration_terms tr_env (tr_pairings opposed_points []) None [1,0,0]
             (unit_weights\<lparr>pt2pt := 1\<rparr>) [1,1])"
proof -
  have len: "replicate (length (paired_pt2pt (tr_pairings opposed_points []))) (1::real) = [1,1]"
    by (simp add: tr_pairings_def opposed_points_def)
  from c6_weighted_accumulation [OF c1_accumulate_1] c1_accumulate_1 len
  show ?thesis by (auto simp: tr_pairings_def tr_locals_def)
qed

text \<open>
  C7.  In an iteration that does not end by the cost test, the increment is the negated
  solution \<open>x\<close> that the solver returns for \<open>H\<close> and \<open>g\<close>, so that \<open>H delta = - g\<close> whenever
  \<open>H x = g\<close>; the iteration ends normally for every \<open>H\<close>, singular or not, and the new
  pose is the old pose composed with the exponential image of the increment.  The
  factorisation itself belongs to the solver, which is a parameter here; the instance
  below has the singular matrix \<open>diag6 2\<close>.
\<close>

theorem c7_solve_and_compose:
  assumes "accumulate env inp rk st = Inr st1"
    and "\<not> sqrt (errNormSqr st1) \<le> maxCost P"
  shows "(let x = colPivHouseholderQr_solve env (var_H st1) (var_g st1);
              delta = vec_neg x;
              st2 = st1\<lparr>result := (result st)
                      \<lparr>optimalPose := pose_compose env (optimalPose (result st))
                                        (SE3_exp env delta)\<rparr>\<rparr>
          in (gn_iteration env inp P rk st = BreakDelta st2
                \<or> gn_iteration env inp P rk st = Next st2)
           \<and> (mat_vec (var_H st1) x = var_g st1
                \<longrightarrow> mat_vec (var_H st1) delta = vec_neg (var_g st1)))"
  using accumulate_frame [OF assms(1)] assms
  by (simp add: gn_iteration_def Let_def vec_neg_mat_vec)

theorem c7_solve_and_compose_witness:
  "accumulate tr_env (tr_pairings opposed_points []) None
     (tr_locals [1,0,0] [0,0,0,0,0,0] (zero_mat 6 6) 1 0 0 0)
     = Inr (tr_locals [1,0,0] [2,0,0,0,0,0] (diag6 2) 1 0 0 4)
   \<and> \<not> sqrt (errNormSqr (tr_locals [1,0,0] [2,0,0,0,0,0] (diag6 2) 1 0 0 4))
         \<le> maxCost (tr_params (Some [1,0,0]) 2)
   \<and> gn_iteration tr_env (tr_pairings opposed_points []) (tr_params (Some [1,0,0]) 2) None
       (tr_locals [1,0,0] [0,0,0,0,0,0] (zero_mat 6 6) 1 0 0 0)
     = Next (tr_locals [0,0,0] [2,0,0,0,0,0] (diag6 2) 1 0 0 4)
   \<and> mat_vec (diag6 2) [-1,0,0,0,0,0] = [-2,0,0,0,0,0]"
proof -
  have h: "\<not> sqrt (errNormSqr (tr_locals [1,0,0] [2,0,0,0,0,0] (diag6 2) 1 0 0 4))
         \<le> maxCost (tr_params (Some [1,0,0]) 2)"
    by simp
  have m: "mat_vec (diag6 2) [-1,0,0,0,0,0] = [-2,0,0,0,0,0]"
    by (simp add: mat_vec_def diag6_def)
  from c7_solve_and_compose [OF c1_accumulate_1 h] c1_accumulate_1 h m
  show ?thesis
    by (simp add: c1_iteration_1)
qed

text \<open>
  C8.  Claimed: the call returns \<open>true\<close> in all cases but two, which abort it by an
  assertion: no linearization point, and a block table too short for the point-to-point
  sequence.

  With a linearization point and a table that is absent or long enough the call returns
  \<open>true\<close> (\<open>optimal_tf_returns_true\<close>), and without a linearization point it ends by the
  first assertion (C10).  A table that is too short does not end the call by an
  assertion (\<open>optimal_tf_never_asserts_cursor\<close>): one block of length 2 over three
  correspondences ends in the undefined read of line 84 when one iteration is allowed,
  and returns \<open>true\<close> when none is.
\<close>

theorem c8_short_table_outcomes:
  "linearizationPoint (tr_params (Some [1,0,0]) 1) \<noteq> None
   \<and> sum_list (map fst (one_block 2 1)) < length three_points
   \<and> fst (optimal_tf_gauss_newton tr_env (tr_pairings three_points (one_block 2 1)) res_origin
        (tr_params (Some [1,0,0]) 1)) = Inl Undefined_deref_end
   \<and> fst (optimal_tf_gauss_newton tr_env (tr_pairings three_points (one_block 2 1)) res_origin
        (tr_params (Some [1,0,0]) 0)) = Inr True"
proof -
  have "sum_list (map fst (one_block 2 1)) < length three_points"
    by (simp add: three_points_def one_block_def)
  then show ?thesis
    by (simp del: One_nat_def
        add: optimal_tf_gauss_newton_def tr_initial gn_loop_1 gn_iteration_def c8_accumulate)
qed

text \<open>
  C9.  A call that does not run into the undefined read leaves in the result object
  what the caller passed in, except for \<open>optimalPose\<close>, which is the linearization point
  (the caller's pose when there is none) composed with the exponential images of at
  most \<open>maxInnerLoopIterations\<close> increments.  The pairings and the parameters are
  arguments by constant reference, not returned by the model, and the locals do not
  outlive the call.
\<close>

theorem c9_only_the_pose_is_written:
  assumes "fst (optimal_tf_gauss_newton env inp res P) \<noteq> Inl Undefined_deref_end"
  shows "\<exists>ds. length ds \<le> maxInnerLoopIterations P \<and>
     snd (optimal_tf_gauss_newton env inp res P) =
       res\<lparr>optimalPose := compose_all env
              (case linearizationPoint P of None \<Rightarrow> optimalPose res | Some p \<Rightarrow> p) ds\<rparr>"
proof (cases "linearizationPoint P")
  case None
  then have "length ([] :: vec list) \<le> maxInnerLoopIterations P \<and>
     snd (optimal_tf_gauss_newton env inp res P) =
       res\<lparr>optimalPose := compose_all env
              (case linearizationPoint P of None \<Rightarrow> optimalPose res | Some p \<Rightarrow> p) []\<rparr>"
    by (simp add: optimal_tf_gauss_newton_def compose_all_def)
  then show ?thesis by blast
next
  case (Some p)
  let ?fin = "gn_loop env inp P (create_robust_kernel env (kernel P) (kernelParam P))
                (maxInnerLoopIterations P) (initial_locals res P p)"
  from gn_loop_result [of "maxInnerLoopIterations P" env inp P
      "create_robust_kernel env (kernel P) (kernelParam P)" "initial_locals res P p"]
  obtain ds where ds: "length ds \<le> maxInnerLoopIterations P"
    "result (snd ?fin) = (result (initial_locals res P p))
        \<lparr>optimalPose := compose_all env (optimalPose (result (initial_locals res P p))) ds\<rparr>"
    by blast
  have "snd (optimal_tf_gauss_newton env inp res P) = result (snd ?fin)"
    by (cases "fst ?fin") (simp_all add: optimal_tf_gauss_newton_def Some Let_def)
  with ds Some have "length ds \<le> maxInnerLoopIterations P \<and>
     snd (optimal_tf_gauss_newton env inp res P) =
       res\<lparr>optimalPose := compose_all env
              (case linearizationPoint P of None \<Rightarrow> optimalPose res | Some p \<Rightarrow> p) ds\<rparr>"
    by (simp add: initial_locals_def)
  then show ?thesis by blast
qed

theorem c9_only_the_pose_is_written_witness:
  "fst (optimal_tf_gauss_newton tr_env (tr_pairings opposed_points []) res_origin
          (tr_params (Some [1,0,0]) 2)) \<noteq> Inl Undefined_deref_end
   \<and> (\<exists>ds. length ds \<le> 2 \<and>
         snd (optimal_tf_gauss_newton tr_env (tr_pairings opposed_points []) res_origin
               (tr_params (Some [1,0,0]) 2))
           = res_origin\<lparr>optimalPose := compose_all tr_env [1,0,0] ds\<rparr>)"
proof -
  have h: "fst (optimal_tf_gauss_newton tr_env (tr_pairings opposed_points []) res_origin
          (tr_params (Some [1,0,0]) 2)) \<noteq> Inl Undefined_deref_end"
    by (simp add: opposed_call)
  from c9_only_the_pose_is_written [OF h] h show ?thesis by simp
qed

text \<open>
  C10.  Without a linearization point the call ends by the first assertion with the
  result object exactly as the caller passed it in, whatever the pairings and the
  result object are.
\<close>

theorem c10_missing_linearization_point:
  "linearizationPoint P = None \<Longrightarrow>
     optimal_tf_gauss_newton env inp res P = (Inl Assert_linearizationPoint, res)"
  by (simp add: optimal_tf_gauss_newton_def)

theorem c10_missing_linearization_point_witness:
  "linearizationPoint (tr_params None 2) = None \<and>
   optimal_tf_gauss_newton tr_env (tr_pairings opposed_points []) res_origin (tr_params None 2)
     = (Inl Assert_linearizationPoint, res_origin)"
proof -
  have h: "linearizationPoint (tr_params None 2) = None" by (simp add: tr_params_def)
  from c10_missing_linearization_point [OF h] h show ?thesis by simp
qed

end
